theory Spec2Isabelle
  imports Main
begin

section \<open>Data model of webhook.go\<close>

text \<open>
  The structs of the source, field for field. A Go map that may be \<open>nil\<close> is an optional
  map: \<open>None\<close> is the nil map (a read finds nothing, a write panics). The calls to
  the logger change nothing the handler returns or stores and are left out.
\<close>

record CreateRequestResponse =
  NewRequestHandle :: string
  NewRequestNumber :: string

record Storage =
  Problems :: "(string \<rightharpoonup> CreateRequestResponse) option"

record Config =
  ListenerPort :: int
  LogLevel :: string
  SDMWSDL :: string
  SDMUsername :: string
  SDMPassword :: string

record Problem =
  Pcat :: string
  ProblemID :: string
  State :: string
  ProblemDetailsText :: string
  ProblemTitle :: string

record LoginResponse =
  LoginReturn :: string

record GetHandleForUserIDResponse =
  GetHandleForUserIDReturn :: string

record UpdateObjectResponse =
  UpdateObjectReturn :: string

record Response =
  Error :: bool
  Message :: string

text \<open>
  The package-level variables the handler reads: \<open>config\<close> and the retry library's
  \<open>try.MaxRetries\<close>.
\<close>

record globals =
  config :: Config
  MaxRetries :: nat

section \<open>The environment: SOAP backend and storage.json\<close>

text \<open>
  A value of \<open>gosoap.Params\<close> is a string or a slice of single-key records
  \<open>{"string": v}\<close>; a slice keeps its order. A call is the method name with its
  parameters.
\<close>

datatype pval = PString string | PArray "(string \<times> string) list"

type_synonym Params = "(string \<times> pval) list"

type_synonym soap_call = "string \<times> Params"

text \<open>
  What \<open>client.Call\<close> leaves in \<open>client.Body\<close>: a body that \<open>client.Unmarshal\<close>
  rejects, or the elements it finds. An element absent from the body leaves the Go
  field at its zero value, the empty string.
\<close>

datatype soap_body = Malformed string | Elements "(string \<times> string) list"

text \<open>
  The backend is any deterministic function of the calls made so far and the present
  call: it fails the call with a message or answers with a body.
\<close>

type_synonym backend = "soap_call list \<Rightarrow> soap_call \<Rightarrow> string + soap_body"

text \<open>
  The file storage.json is kept up to what \<open>json.Unmarshal\<close> makes of its bytes: an
  error (an empty file, malformed JSON, a document of the wrong shape) or a
  \<open>Storage\<close> value. \<open>json.MarshalIndent\<close> of a \<open>Storage\<close> value is taken to
  decode to that value again.
\<close>

datatype file_content = Undecodable | Document Storage

text \<open>
  The world a request runs in: the file (\<open>None\<close> when it does not exist), whether the
  process may create and write it, and the SOAP calls issued so far, oldest first.
\<close>

record world =
  storage_json :: "file_content option"
  writable :: bool
  soap_log :: "soap_call list"

text \<open>A run ends with a value, or the process exits (\<open>log.Fatalf\<close>), or the goroutine panics.\<close>

datatype abort = Fatal string | Panic string

section \<open>Formatting\<close>

definition digit_char :: "nat \<Rightarrow> char" where
  "digit_char d = ''0123456789'' ! d"

text \<open>The verb \<open>%d\<close> of \<open>fmt.Sprintf\<close> on a non-negative integer.\<close>

fun show_nat :: "nat \<Rightarrow> string" where
  "show_nat n = (if n < 10 then [digit_char n] else show_nat (n div 10) @ [digit_char (n mod 10)])"

declare show_nat.simps [simp del]

section \<open>The retry library\<close>

text \<open>
  Modelled from the spec: the function \<open>try.Do\<close> and the error it returns, of the
  package gopkg.in/matryer/try.v1, which the handler imports and whose source is not
  part of the repository. The spec (section 4.3): \<open>attempt(operation, maxAttempts)\<close>
  gives the result or fails with \<open>RetryExhausted{attempts, lastError}\<close>; it invokes the
  operation up to \<open>maxAttempts\<close> times, stops at the first success, and treats every
  failure as retryable. The operation has the shape the source's closures have: it
  takes the attempt number, counted from 1, and returns a retry flag and an optional
  error; an invocation succeeds when it returns no error. The flag plays no part, as
  the spec's policy retries on any error.
\<close>

datatype retry_error = RetryExhausted (attempts: nat) (lastError: string)

fun attempt_from ::
  "nat \<Rightarrow> nat \<Rightarrow> string \<Rightarrow> (nat \<Rightarrow> 's \<Rightarrow> (bool \<times> string option) \<times> 's) \<Rightarrow> 's
     \<Rightarrow> retry_error option \<times> 's" where
  "attempt_from 0 made lastErr fn s = (Some (RetryExhausted made lastErr), s)"
| "attempt_from (Suc left) made lastErr fn s =
     (case fn (Suc made) s of
        ((_, None), s') \<Rightarrow> (None, s')
      | ((_, Some e), s') \<Rightarrow> attempt_from left (Suc made) e fn s')"

definition try_Do ::
  "nat \<Rightarrow> (nat \<Rightarrow> 's \<Rightarrow> (bool \<times> string option) \<times> 's) \<Rightarrow> 's \<Rightarrow> retry_error option \<times> 's" where
  "try_Do maxAttempts fn s = attempt_from maxAttempts 0 [] fn s"

text \<open>
  Modelled from the spec: \<open>err.Error()\<close> of the error \<open>try.Do\<close> returns. The spec
  (sections 4.4 and 7) has the failure Outcome carry the last diagnostic message, and
  the handler puts \<open>err.Error()\<close> into the message, so the text is the last error.
\<close>

definition retry_Error :: "retry_error \<Rightarrow> string" where
  "retry_Error e = lastError e"

text \<open>
  For stating how often and with what results an operation is invoked:
  \<open>invocation fn s i\<close> is the result and state of the \<open>i\<close>-th invocation (from 1) when
  the operation is run again and again from \<open>s\<close>; \<open>counted fn\<close> is \<open>fn\<close> with a
  counter of its invocations beside the state.
\<close>

fun invocation ::
  "(nat \<Rightarrow> 's \<Rightarrow> (bool \<times> string option) \<times> 's) \<Rightarrow> 's \<Rightarrow> nat \<Rightarrow> (bool \<times> string option) \<times> 's" where
  "invocation fn s 0 = ((False, None), s)"
| "invocation fn s (Suc i) = fn (Suc i) (snd (invocation fn s i))"

definition failure_of :: "(bool \<times> string option) \<times> 's \<Rightarrow> string option" where
  "failure_of r = snd (fst r)"

definition counted ::
  "(nat \<Rightarrow> 's \<Rightarrow> (bool \<times> string option) \<times> 's) \<Rightarrow> nat \<Rightarrow> nat \<times> 's \<Rightarrow> (bool \<times> string option) \<times> (nat \<times> 's)" where
  "counted fn a cs = (case fn a (snd cs) of (r, s') \<Rightarrow> (r, (Suc (fst cs), s')))"

section \<open>The SOAP client\<close>

definition client_Call :: "backend \<Rightarrow> string \<Rightarrow> Params \<Rightarrow> world \<Rightarrow> (string + soap_body) \<times> world" where
  "client_Call b method params w =
     (b (soap_log w) (method, params), w\<lparr>soap_log := soap_log w @ [(method, params)]\<rparr>)"

definition client_Unmarshal :: "soap_body \<Rightarrow> string + (string \<times> string) list" where
  "client_Unmarshal body = (case body of Malformed err \<Rightarrow> Inl err | Elements xs \<Rightarrow> Inr xs)"

definition xml_field :: "string \<Rightarrow> (string \<times> string) list \<Rightarrow> string" where
  "xml_field name xs = (case map_of xs name of None \<Rightarrow> [] | Some v \<Rightarrow> v)"

definition getHandle ::
  "backend \<Rightarrow> string \<Rightarrow> string \<Rightarrow> world \<Rightarrow> (string + GetHandleForUserIDResponse) \<times> world" where
  "getHandle b sid username w =
     (let p = [(''sid'', PString sid), (''userID'', PString username)] in
      case client_Call b ''getHandleForUserid'' p w of
        (Inl err, w') \<Rightarrow> (Inl err, w')
      | (Inr body, w') \<Rightarrow>
          (case client_Unmarshal body of
             Inl err \<Rightarrow> (Inl err, w')
           | Inr xs \<Rightarrow>
               (Inr \<lparr>GetHandleForUserIDReturn = xml_field ''getHandleForUseridReturn'' xs\<rparr>, w')))"

definition login ::
  "backend \<Rightarrow> string \<Rightarrow> string \<Rightarrow> world \<Rightarrow> (string + LoginResponse) \<times> world" where
  "login b username password w =
     (let params = [(''username'', PString username), (''password'', PString password)] in
      case client_Call b ''login'' params w of
        (Inl err, w') \<Rightarrow> (Inl err, w')
      | (Inr body, w') \<Rightarrow>
          (case client_Unmarshal body of
             Inl err \<Rightarrow> (Inl err, w')
           | Inr xs \<Rightarrow> (Inr \<lparr>LoginReturn = xml_field ''loginReturn'' xs\<rparr>, w')))"

definition updateObject ::
  "backend \<Rightarrow> string \<Rightarrow> string \<Rightarrow> (string \<times> string) list \<Rightarrow> (string \<times> string) list \<Rightarrow> world
     \<Rightarrow> (string + UpdateObjectResponse) \<times> world" where
  "updateObject b sid objectHandle attrVals attributes w =
     (let params = [(''sid'', PString sid), (''objectHandle'', PString objectHandle),
                    (''attrVals'', PArray attrVals), (''attributes'', PArray attributes)] in
      case client_Call b ''updateObject'' params w of
        (Inl err, w') \<Rightarrow> (Inl err, w')
      | (Inr body, w') \<Rightarrow>
          (case client_Unmarshal body of
             Inl err \<Rightarrow> (Inl err, w')
           | Inr xs \<Rightarrow> (Inr \<lparr>UpdateObjectReturn = xml_field ''updateObjectReturn'' xs\<rparr>, w')))"

definition createRequest ::
  "backend \<Rightarrow> string \<Rightarrow> string \<Rightarrow> (string \<times> string) list \<Rightarrow> (string \<times> string) list \<Rightarrow> string
     \<Rightarrow> (string \<times> string) list \<Rightarrow> string \<Rightarrow> string \<Rightarrow> world
     \<Rightarrow> (string + CreateRequestResponse) \<times> world" where
  "createRequest b sid creatorHandle attrVals propertyValues template attributes
       newRequestHandle newRequestNumber w =
     (let params = [(''sid'', PString sid), (''creatorHandle'', PString creatorHandle),
                    (''attrVals'', PArray attrVals), (''propertyValues'', PArray propertyValues),
                    (''template'', PString template), (''attributes'', PArray attributes),
                    (''newRequestHandle'', PString newRequestHandle),
                    (''newRequestNumber'', PString newRequestNumber)] in
      case client_Call b ''createRequest'' params w of
        (Inl err, w') \<Rightarrow> (Inl err, w')
      | (Inr body, w') \<Rightarrow>
          (case client_Unmarshal body of
             Inl err \<Rightarrow> (Inl err, w')
           | Inr xs \<Rightarrow>
               (Inr \<lparr>NewRequestHandle = xml_field ''newRequestHandle'' xs,
                     NewRequestNumber = xml_field ''newRequestNumber'' xs\<rparr>, w')))"

section \<open>The two remote flows\<close>

definition closeTicket ::
  "Config \<Rightarrow> backend \<Rightarrow> string \<Rightarrow> world \<Rightarrow> (string + UpdateObjectResponse) \<times> world" where
  "closeTicket cfg b objectHandle w =
     (case login b (SDMUsername cfg) (SDMPassword cfg) w of
        (Inl err, w1) \<Rightarrow> (Inl err, w1)
      | (Inr l, w1) \<Rightarrow>
          (let attrValues = [(''string'', ''status''), (''string'', ''RE''),
                             (''string'', ''rootcause''), (''string'', ''rc:400174'')];
               attributes = [(''string'', ''status''), (''string'', ''rootcause'')] in
           case updateObject b (LoginReturn l) objectHandle attrValues attributes w1 of
             (Inl err, w2) \<Rightarrow> (Inl err, w2)
           | (Inr r, w2) \<Rightarrow> (Inr r, w2)))"

definition openTicket ::
  "Config \<Rightarrow> backend \<Rightarrow> string \<Rightarrow> string \<Rightarrow> string \<Rightarrow> world
     \<Rightarrow> (string + CreateRequestResponse) \<times> world" where
  "openTicket cfg b description summary pcat w =
     (case login b (SDMUsername cfg) (SDMPassword cfg) w of
        (Inl err, w1) \<Rightarrow> (Inl err, w1)
      | (Inr l, w1) \<Rightarrow>
          (case getHandle b (LoginReturn l) (SDMUsername cfg) w1 of
             (Inl err, w2) \<Rightarrow> (Inl err, w2)
           | (Inr h, w2) \<Rightarrow>
               (let attrs = [(''string'', ''customer''), (''string'', GetHandleForUserIDReturn h),
                             (''string'', ''category''), (''string'', ''pcat:'' @ pcat),
                             (''string'', ''description''), (''string'', description),
                             (''string'', ''summary''), (''string'', summary),
                             (''string'', ''urgency''), (''string'', ''2''),
                             (''string'', ''impact''), (''string'', ''4''),
                             (''string'', ''group''), (''string'', ''5FA1B7BE4CFA2E4C9B19E115AE49A642''),
                             (''string'', ''type''), (''string'', ''crt:182'')] in
                case createRequest b (LoginReturn l) (GetHandleForUserIDReturn h) attrs
                       [] '''' [] '''' '''' w2 of
                  (Inl err, w3) \<Rightarrow> (Inl err, w3)
                | (Inr r, w3) \<Rightarrow> (Inr r, w3))))"

section \<open>The association store\<close>

definition os_Open :: "world \<Rightarrow> string + file_content" where
  "os_Open w =
     (case storage_json w of
        None \<Rightarrow> Inl ''open storage.json: no such file or directory''
      | Some c \<Rightarrow> Inr c)"

text \<open>\<open>os.Create\<close> leaves an empty file, which \<open>json.Unmarshal\<close> rejects.\<close>

definition os_Create :: "world \<Rightarrow> (string + file_content) \<times> world" where
  "os_Create w =
     (if writable w then (Inr Undecodable, w\<lparr>storage_json := Some Undecodable\<rparr>)
      else (Inl ''open storage.json: permission denied'', w))"

definition json_Unmarshal :: "file_content \<Rightarrow> string + Storage" where
  "json_Unmarshal byteValue =
     (case byteValue of
        Undecodable \<Rightarrow> Inl ''unexpected end of JSON input''
      | Document s \<Rightarrow> Inr s)"

definition json_MarshalIndent :: "Storage \<Rightarrow> file_content" where
  "json_MarshalIndent storage = Document storage"

text \<open>The error of \<open>ioutil.WriteFile\<close> is discarded by the caller.\<close>

definition ioutil_WriteFile :: "file_content \<Rightarrow> world \<Rightarrow> world" where
  "ioutil_WriteFile file w = (if writable w then w\<lparr>storage_json := Some file\<rparr> else w)"

text \<open>
  The opening lines that \<open>getTicketNumberFromStorage\<close> and \<open>storeNewProblem\<close> share:
  open the file, create it when that fails (fatal when it cannot be created), read it
  and decode it, falling back to an empty map when the bytes do not decode.
\<close>

definition loadStorage :: "world \<Rightarrow> (abort + Storage) \<times> world" where
  "loadStorage w =
     (case (case os_Open w of
              Inl err \<Rightarrow> os_Create w
            | Inr f \<Rightarrow> (Inr f, w)) of
        (Inl err, w') \<Rightarrow> (Inl (Fatal (''Could not create storage.json: '' @ err)), w')
      | (Inr byteValue, w') \<Rightarrow>
          (case json_Unmarshal byteValue of
             Inl err \<Rightarrow> (Inr \<lparr>Problems = Some Map.empty\<rparr>, w')
           | Inr storage \<Rightarrow> (Inr storage, w')))"

definition getTicketNumberFromStorage ::
  "Problem \<Rightarrow> world \<Rightarrow> (abort + CreateRequestResponse option) \<times> world" where
  "getTicketNumberFromStorage problem w =
     (case loadStorage w of
        (Inl a, w') \<Rightarrow> (Inl a, w')
      | (Inr storage, w') \<Rightarrow>
          (case Problems storage of
             None \<Rightarrow> (Inr None, w')
           | Some m \<Rightarrow> (Inr (m (ProblemID problem)), w')))"

definition storeNewProblem ::
  "Problem \<Rightarrow> CreateRequestResponse \<Rightarrow> world \<Rightarrow> (abort + unit) \<times> world" where
  "storeNewProblem problem ticket w =
     (case loadStorage w of
        (Inl a, w') \<Rightarrow> (Inl a, w')
      | (Inr storage, w') \<Rightarrow>
          (case Problems storage of
             None \<Rightarrow> (Inl (Panic ''assignment to entry in nil map''), w')
           | Some m \<Rightarrow>
               (let file = json_MarshalIndent (storage\<lparr>Problems := Some (m(ProblemID problem \<mapsto> ticket))\<rparr>)
                in (Inr (), ioutil_WriteFile file w'))))"

text \<open>The mapping a lookup sees in a world.\<close>

definition stored_mapping :: "world \<Rightarrow> (string \<rightharpoonup> CreateRequestResponse)" where
  "stored_mapping w =
     (case storage_json w of
        None \<Rightarrow> Map.empty
      | Some Undecodable \<Rightarrow> Map.empty
      | Some (Document s) \<Rightarrow> (case Problems s of None \<Rightarrow> Map.empty | Some m \<Rightarrow> m))"

text \<open>
  The states of the store in which an upsert goes through: the file can be created and
  written, and a file that decodes carries a problems object. The handler starts
  without a file and only ever writes such documents.
\<close>

definition store_ok :: "world \<Rightarrow> bool" where
  "store_ok w =
     (writable w \<and>
      (case storage_json w of
         Some (Document s) \<Rightarrow> Problems s \<noteq> None
       | _ \<Rightarrow> True))"

section \<open>The handler\<close>

record http_response =
  status :: nat
  body :: Response

text \<open>
  The two function literals handed to \<open>try.Do\<close>. Each assigns the captured variable
  (\<open>ticket\<close>, \<open>closedTicket\<close>), which travels beside the world.
\<close>

definition openAttempt ::
  "Config \<Rightarrow> backend \<Rightarrow> Problem \<Rightarrow> string \<Rightarrow> nat \<Rightarrow> CreateRequestResponse option \<times> world
     \<Rightarrow> (bool \<times> string option) \<times> (CreateRequestResponse option \<times> world)" where
  "openAttempt cfg b problem title attempt s =
     (case openTicket cfg b (ProblemDetailsText problem) title (Pcat problem) (snd s) of
        (Inl err, w') \<Rightarrow> ((True, Some err), (None, w'))
      | (Inr t, w') \<Rightarrow> ((False, None), (Some t, w')))"

definition closeAttempt ::
  "Config \<Rightarrow> backend \<Rightarrow> CreateRequestResponse \<Rightarrow> nat \<Rightarrow> UpdateObjectResponse option \<times> world
     \<Rightarrow> (bool \<times> string option) \<times> (UpdateObjectResponse option \<times> world)" where
  "closeAttempt cfg b ticket attempt s =
     (case closeTicket cfg b (NewRequestHandle ticket) (snd s) of
        (Inl err, w') \<Rightarrow> ((True, Some err), (None, w'))
      | (Inr r, w') \<Rightarrow> ((False, None), (Some r, w')))"

definition problem_title :: "Problem \<Rightarrow> string" where
  "problem_title problem =
     ''Dynatrace - '' @ ProblemTitle problem @ '' (Problem ID: '' @ ProblemID problem
       @ '', State: '' @ State problem @ '')''"

text \<open>
  The request body arrives decoded: \<open>Inl\<close> the decoder's error, \<open>Inr\<close> the problem. A
  response written without \<open>WriteHeader\<close> goes out with status 200.
\<close>

definition SDMHandler ::
  "globals \<Rightarrow> backend \<Rightarrow> string + Problem \<Rightarrow> world \<Rightarrow> (abort + http_response) \<times> world" where
  "SDMHandler g b request w =
     (case request of
        Inl err \<Rightarrow>
          (Inr \<lparr>status = 400,
                body = \<lparr>Error = True,
                        Message = ''Could not parse the problem from the request body: '' @ err\<rparr>\<rparr>, w)
      | Inr problem \<Rightarrow>
          if State problem = ''OPEN'' then
            (case try_Do (MaxRetries g) (openAttempt (config g) b problem (problem_title problem)) (None, w) of
               (Some err, (ticket, w1)) \<Rightarrow>
                 (Inr \<lparr>status = 500,
                       body = \<lparr>Error = True,
                               Message = ''Could not open ticket after '' @ show_nat (MaxRetries g)
                                           @ '' tries, error: '' @ retry_Error err\<rparr>\<rparr>, w1)
             | (None, (None, w1)) \<Rightarrow> (Inl (Panic ''nil pointer dereference''), w1)
             | (None, (Some ticket, w1)) \<Rightarrow>
                 (case storeNewProblem problem ticket w1 of
                    (Inl a, w2) \<Rightarrow> (Inl a, w2)
                  | (Inr u, w2) \<Rightarrow>
                      (Inr \<lparr>status = 200,
                            body = \<lparr>Error = False,
                                    Message = ''Opened ticket: '' @ NewRequestNumber ticket\<rparr>\<rparr>, w2)))
          else if State problem = ''RESOLVED'' then
            (case getTicketNumberFromStorage problem w of
               (Inl a, w1) \<Rightarrow> (Inl a, w1)
             | (Inr None, w1) \<Rightarrow>
                 (Inr \<lparr>status = 200, body = \<lparr>Error = False, Message = ''''\<rparr>\<rparr>, w1)
             | (Inr (Some ticket), w1) \<Rightarrow>
                 (case try_Do (MaxRetries g) (closeAttempt (config g) b ticket) (None, w1) of
                    (Some err, (closedTicket, w2)) \<Rightarrow>
                      (Inr \<lparr>status = 500,
                            body = \<lparr>Error = True,
                                    Message = ''Could not close ticket '' @ NewRequestNumber ticket
                                                @ '' after '' @ show_nat (MaxRetries g)
                                                @ '' tries, error: '' @ retry_Error err\<rparr>\<rparr>, w2)
                  | (None, (closedTicket, w2)) \<Rightarrow>
                      (Inr \<lparr>status = 200,
                            body = \<lparr>Error = False,
                                    Message = ''Closed ticket: '' @ NewRequestNumber ticket\<rparr>\<rparr>, w2)))
          else
            (Inr \<lparr>status = 200, body = \<lparr>Error = False, Message = ''''\<rparr>\<rparr>, w))"

text \<open>
  What \<open>main\<close> leaves in the package-level variables before it serves: the decoded
  config.json, and the retry bound it assigns.
\<close>

definition main_globals :: "Config \<Rightarrow> globals" where
  "main_globals c = \<lparr>config = c, MaxRetries = 50\<rparr>"

section \<open>Reading the log of SOAP calls\<close>

text \<open>
  The ticket in the backend's answer to the last call of a log, when that call is a
  \<open>createRequest\<close> that was answered.
\<close>

definition last_created :: "backend \<Rightarrow> soap_call list \<Rightarrow> CreateRequestResponse option" where
  "last_created b log =
     (case rev log of
        [] \<Rightarrow> None
      | c # before \<Rightarrow>
          if fst c = ''createRequest'' then
            (case b (rev before) c of
               Inr (Elements xs) \<Rightarrow>
                 Some \<lparr>NewRequestHandle = xml_field ''newRequestHandle'' xs,
                       NewRequestNumber = xml_field ''newRequestNumber'' xs\<rparr>
             | _ \<Rightarrow> None)
          else None)"

text \<open>
  \<open>fresh_sessions b hist tok calls\<close> reads the calls that follow the history \<open>hist\<close>:
  a \<open>login\<close> makes the token of its answer the current one (none when it fails), and
  every other call must carry the current token as its \<open>sid\<close>.
\<close>

fun fresh_sessions :: "backend \<Rightarrow> soap_call list \<Rightarrow> string option \<Rightarrow> soap_call list \<Rightarrow> bool" where
  "fresh_sessions b hist tok [] = True"
| "fresh_sessions b hist tok (c # cs) =
     (if fst c = ''login'' then
        fresh_sessions b (hist @ [c])
          (case b hist c of
             Inr (Elements xs) \<Rightarrow> Some (xml_field ''loginReturn'' xs)
           | _ \<Rightarrow> None) cs
      else
        (case tok of None \<Rightarrow> False | Some t \<Rightarrow> map_of (snd c) ''sid'' = Some (PString t))
        \<and> fresh_sessions b (hist @ [c]) tok cs)"

text \<open>The calls a run adds to the log of \<open>w\<close>, read from no session at all, are in order.\<close>

definition extends_fresh :: "backend \<Rightarrow> world \<Rightarrow> world \<Rightarrow> bool" where
  "extends_fresh b w w' =
     (\<exists>calls. soap_log w' = soap_log w @ calls \<and> fresh_sessions b (soap_log w) None calls)"

section \<open>Concrete scenarios\<close>

text \<open>The inputs of the spec's concrete scenarios (section 8), used to run the model.\<close>

definition demo_config :: Config where
  "demo_config = \<lparr>ListenerPort = 8080, LogLevel = ''INFO'', SDMWSDL = ''http://sdm/axis/services/USD_R11_WebService?wsdl'',
                   SDMUsername = ''operator'', SDMPassword = ''secret''\<rparr>"

definition other_config :: Config where
  "other_config = \<lparr>ListenerPort = 9000, LogLevel = ''DEBUG'', SDMWSDL = ''http://other/wsdl'',
                    SDMUsername = ''admin'', SDMPassword = ''hunter2''\<rparr>"

definition demo_globals :: globals where
  "demo_globals = \<lparr>config = demo_config, MaxRetries = 3\<rparr>"

text \<open>A backend that answers every call; it opens ticket INC001 with handle H1.\<close>

definition demo_backend :: backend where
  "demo_backend hist c =
     (if fst c = ''login'' then Inr (Elements [(''loginReturn'', ''SID1'')])
      else if fst c = ''getHandleForUserid'' then Inr (Elements [(''getHandleForUseridReturn'', ''cnt:OP'')])
      else if fst c = ''createRequest'' then
        Inr (Elements [(''newRequestHandle'', ''H1''), (''newRequestNumber'', ''INC001'')])
      else Inr (Elements [(''updateObjectReturn'', ''OK'')]))"

text \<open>A backend that fails every call.\<close>

definition down_backend :: backend where
  "down_backend hist c = Inl ''connection refused''"

definition fresh_world :: world where
  "fresh_world = \<lparr>storage_json = None, writable = True, soap_log = []\<rparr>"

definition stored_world :: world where
  "stored_world =
     \<lparr>storage_json = Some (Document \<lparr>Problems = Some [''P1'' \<mapsto> \<lparr>NewRequestHandle = ''H1'', NewRequestNumber = ''INC001''\<rparr>]\<rparr>),
      writable = True, soap_log = []\<rparr>"

definition P1_open :: Problem where
  "P1_open = \<lparr>Pcat = ''400373'', ProblemID = ''P1'', State = ''OPEN'',
               ProblemDetailsText = ''disk at 95%'', ProblemTitle = ''Disk full''\<rparr>"

definition P1_resolved :: Problem where
  "P1_resolved = \<lparr>Pcat = '''', ProblemID = ''P1'', State = ''RESOLVED'',
                   ProblemDetailsText = '''', ProblemTitle = ''''\<rparr>"

definition P2_resolved :: Problem where
  "P2_resolved = \<lparr>Pcat = '''', ProblemID = ''P2'', State = ''RESOLVED'',
                   ProblemDetailsText = '''', ProblemTitle = ''''\<rparr>"

text \<open>An operation that fails on its first \<open>k\<close> invocations and succeeds from then on.\<close>

definition flaky :: "nat \<Rightarrow> nat \<Rightarrow> unit \<Rightarrow> (bool \<times> string option) \<times> unit" where
  "flaky k attempt u = (if attempt \<le> k then ((True, Some ''timeout''), ()) else ((False, None), ()))"

section \<open>The retry policy\<close>

lemma invocation_counted:
  "invocation (counted fn) (c, s) i = (fst (invocation fn s i), (c + i, snd (invocation fn s i)))"
  by (induction i) (simp_all add: counted_def split: prod.splits)

lemma attempt_from_success:
  assumes "k < left"
    and "\<forall>i\<in>{Suc made..made + k}. failure_of (invocation fn s0 i) \<noteq> None"
    and "failure_of (invocation fn s0 (Suc (made + k))) = None"
  shows "attempt_from left made e fn (snd (invocation fn s0 made))
           = (None, snd (invocation fn s0 (Suc (made + k))))"
  using assms
proof (induction k arbitrary: left made e)
  case 0
  then obtain l where l: "left = Suc l" by (cases left) auto
  from 0(3) show ?case
    by (auto simp: l failure_of_def split: prod.splits option.splits)
next
  case (Suc k)
  then obtain l where l: "left = Suc l" by (cases left) auto
  have "Suc made \<in> {Suc made..made + Suc k}" by simp
  with Suc.prems(2) have f: "failure_of (invocation fn s0 (Suc made)) \<noteq> None" by blast
  then obtain r e' s' where r: "fn (Suc made) (snd (invocation fn s0 made)) = ((r, Some e'), s')"
    by (cases "fn (Suc made) (snd (invocation fn s0 made))") (auto simp: failure_of_def)
  have "attempt_from l (Suc made) e' fn (snd (invocation fn s0 (Suc made)))
          = (None, snd (invocation fn s0 (Suc (Suc made + k))))"
  proof (rule Suc.IH)
    show "k < l" using Suc.prems(1) by (simp add: l)
    show "\<forall>i\<in>{Suc (Suc made)..Suc made + k}. failure_of (invocation fn s0 i) \<noteq> None"
      using Suc.prems(2) by (simp del: invocation.simps)
    show "failure_of (invocation fn s0 (Suc (Suc made + k))) = None"
      using Suc.prems(3) by (simp del: invocation.simps)
  qed
  then show ?case using r by (simp add: l)
qed

lemma attempt_from_exhausted:
  assumes "\<forall>i\<in>{Suc made..made + left}. failure_of (invocation fn s0 i) \<noteq> None"
  shows "attempt_from left made e fn (snd (invocation fn s0 made))
           = (Some (RetryExhausted (made + left)
                      (if left = 0 then e else the (failure_of (invocation fn s0 (made + left))))),
              snd (invocation fn s0 (made + left)))"
  using assms
proof (induction left arbitrary: made e)
  case 0
  then show ?case by simp
next
  case (Suc l)
  have "Suc made \<in> {Suc made..made + Suc l}" by simp
  with Suc.prems have f: "failure_of (invocation fn s0 (Suc made)) \<noteq> None" by blast
  then obtain r e' s' where r: "fn (Suc made) (snd (invocation fn s0 made)) = ((r, Some e'), s')"
    by (cases "fn (Suc made) (snd (invocation fn s0 made))") (auto simp: failure_of_def)
  have e': "failure_of (invocation fn s0 (Suc made)) = Some e'" using r by (simp add: failure_of_def)
  have "attempt_from l (Suc made) e' fn (snd (invocation fn s0 (Suc made)))
          = (Some (RetryExhausted (Suc made + l)
                      (if l = 0 then e' else the (failure_of (invocation fn s0 (Suc made + l))))),
              snd (invocation fn s0 (Suc made + l)))"
  proof (rule Suc.IH)
    show "\<forall>i\<in>{Suc (Suc made)..Suc made + l}. failure_of (invocation fn s0 i) \<noteq> None"
      using Suc.prems by (simp del: invocation.simps)
  qed
  then show ?case
  proof (cases "l = 0")
    case True
    with \<open>attempt_from l (Suc made) e' fn _ = _\<close> r e' show ?thesis by simp
  next
    case False
    with \<open>attempt_from l (Suc made) e' fn _ = _\<close> r show ?thesis
      by (simp del: invocation.simps) (simp)
  qed
qed


lemma failure_of_counted:
  "failure_of (invocation (counted fn) (c, s) i) = failure_of (invocation fn s i)"
  by (simp add: invocation_counted failure_of_def)

lemma try_Do_success:
  assumes "k < maxAttempts"
    and "\<forall>i\<in>{1..k}. failure_of (invocation fn s i) \<noteq> None"
    and "failure_of (invocation fn s (Suc k)) = None"
  shows "try_Do maxAttempts fn s = (None, snd (invocation fn s (Suc k)))"
proof -
  have "attempt_from maxAttempts 0 [] fn (snd (invocation fn s 0))
          = (None, snd (invocation fn s (Suc (0 + k))))"
    using assms by (intro attempt_from_success) (simp_all del: invocation.simps)
  then show ?thesis by (simp add: try_Do_def del: invocation.simps(2))
qed

lemma try_Do_exhausted:
  assumes "\<forall>i\<in>{1..maxAttempts}. failure_of (invocation fn s i) \<noteq> None"
  shows "try_Do maxAttempts fn s
           = (Some (RetryExhausted maxAttempts
                      (if maxAttempts = 0 then [] else the (failure_of (invocation fn s maxAttempts)))),
              snd (invocation fn s maxAttempts))"
proof -
  have "attempt_from maxAttempts 0 [] fn (snd (invocation fn s 0))
          = (Some (RetryExhausted (0 + maxAttempts)
                     (if maxAttempts = 0 then [] else the (failure_of (invocation fn s (0 + maxAttempts))))),
             snd (invocation fn s (0 + maxAttempts)))"
    using assms by (intro attempt_from_exhausted) (simp_all del: invocation.simps)
  then show ?thesis by (simp add: try_Do_def del: invocation.simps(2))
qed

text \<open>
  Claim C2. For every operation and every bound \<open>maxAttempts\<close>: when the first \<open>k\<close>
  invocations fail, \<open>k < maxAttempts\<close>, and the next one succeeds, the retry wrapper returns
  success and has invoked the operation exactly \<open>k + 1\<close> times; when the operation fails on
  each of \<open>maxAttempts\<close> invocations, it is invoked exactly \<open>maxAttempts\<close> times and the
  wrapper returns a failure whose attempt count is \<open>maxAttempts\<close>. The counter of
  \<open>counted\<close> gives the number of invocations.
\<close>

theorem try_Do_retry_policy:
  "(k < maxAttempts \<and> (\<forall>i\<in>{1..k}. failure_of (invocation fn s i) \<noteq> None)
      \<and> failure_of (invocation fn s (Suc k)) = None
    \<longrightarrow> try_Do maxAttempts fn s = (None, snd (invocation fn s (Suc k)))
        \<and> try_Do maxAttempts (counted fn) (0, s) = (None, (Suc k, snd (invocation fn s (Suc k)))))
   \<and> ((\<forall>i\<in>{1..maxAttempts}. failure_of (invocation fn s i) \<noteq> None)
    \<longrightarrow> (\<exists>e. attempts e = maxAttempts
          \<and> try_Do maxAttempts fn s = (Some e, snd (invocation fn s maxAttempts))
          \<and> try_Do maxAttempts (counted fn) (0, s)
                = (Some e, (maxAttempts, snd (invocation fn s maxAttempts)))))"
proof (intro conjI impI)
  assume h: "k < maxAttempts \<and> (\<forall>i\<in>{1..k}. failure_of (invocation fn s i) \<noteq> None)
      \<and> failure_of (invocation fn s (Suc k)) = None"
  then show "try_Do maxAttempts fn s = (None, snd (invocation fn s (Suc k)))"
    by (intro try_Do_success) auto
  from h have "try_Do maxAttempts (counted fn) (0, s)
                 = (None, snd (invocation (counted fn) (0, s) (Suc k)))"
    by (intro try_Do_success) (auto simp only: failure_of_counted)
  then show "try_Do maxAttempts (counted fn) (0, s) = (None, (Suc k, snd (invocation fn s (Suc k))))"
    by (simp only: invocation_counted snd_conv add_0)
next
  assume h: "\<forall>i\<in>{1..maxAttempts}. failure_of (invocation fn s i) \<noteq> None"
  let ?e = "RetryExhausted maxAttempts
              (if maxAttempts = 0 then [] else the (failure_of (invocation fn s maxAttempts)))"
  have a: "try_Do maxAttempts fn s = (Some ?e, snd (invocation fn s maxAttempts))"
    using h by (rule try_Do_exhausted)
  have "try_Do maxAttempts (counted fn) (0, s)
          = (Some (RetryExhausted maxAttempts
                     (if maxAttempts = 0 then []
                      else the (failure_of (invocation (counted fn) (0, s) maxAttempts)))),
             snd (invocation (counted fn) (0, s) maxAttempts))"
    using h by (intro try_Do_exhausted) (simp only: failure_of_counted)
  then have b: "try_Do maxAttempts (counted fn) (0, s)
                  = (Some ?e, (maxAttempts, snd (invocation fn s maxAttempts)))"
    unfolding failure_of_counted by (simp add: invocation_counted del: invocation.simps)
  show "\<exists>e. attempts e = maxAttempts
          \<and> try_Do maxAttempts fn s = (Some e, snd (invocation fn s maxAttempts))
          \<and> try_Do maxAttempts (counted fn) (0, s)
                = (Some e, (maxAttempts, snd (invocation fn s maxAttempts)))"
    using a b by (intro exI[of _ ?e]) simp
qed

section \<open>The remote calls\<close>

lemma login_res:
  "login b u p w = (r, w') \<Longrightarrow>
     w' = w\<lparr>soap_log := soap_log w @ [(''login'', [(''username'', PString u), (''password'', PString p)])]\<rparr>
     \<and> (\<forall>l. r = Inr l \<longrightarrow>
           (\<exists>xs. b (soap_log w) (''login'', [(''username'', PString u), (''password'', PString p)])
                   = Inr (Elements xs)
                 \<and> LoginReturn l = xml_field ''loginReturn'' xs))"
  by (auto simp: login_def client_Call_def client_Unmarshal_def Let_def
           split: sum.splits soap_body.splits)

lemma getHandle_res:
  "getHandle b sid u w = (r, w') \<Longrightarrow>
     w' = w\<lparr>soap_log := soap_log w @ [(''getHandleForUserid'', [(''sid'', PString sid), (''userID'', PString u)])]\<rparr>
     \<and> (\<forall>h. r = Inr h \<longrightarrow>
           (\<exists>xs. b (soap_log w) (''getHandleForUserid'', [(''sid'', PString sid), (''userID'', PString u)])
                   = Inr (Elements xs)
                 \<and> GetHandleForUserIDReturn h = xml_field ''getHandleForUseridReturn'' xs))"
  by (auto simp: getHandle_def client_Call_def client_Unmarshal_def Let_def
           split: sum.splits soap_body.splits)

lemma updateObject_res:
  "updateObject b sid oh av at w = (r, w') \<Longrightarrow>
     w' = w\<lparr>soap_log := soap_log w @
            [(''updateObject'', [(''sid'', PString sid), (''objectHandle'', PString oh),
                                 (''attrVals'', PArray av), (''attributes'', PArray at)])]\<rparr>"
  by (auto simp: updateObject_def client_Call_def client_Unmarshal_def Let_def
           split: sum.splits soap_body.splits)

lemma createRequest_res:
  "createRequest b sid ch av pv t at nh nn w = (r, w') \<Longrightarrow>
     w' = w\<lparr>soap_log := soap_log w @
            [(''createRequest'', [(''sid'', PString sid), (''creatorHandle'', PString ch),
                    (''attrVals'', PArray av), (''propertyValues'', PArray pv),
                    (''template'', PString t), (''attributes'', PArray at),
                    (''newRequestHandle'', PString nh),
                    (''newRequestNumber'', PString nn)])]\<rparr>
     \<and> (\<forall>t'. r = Inr t' \<longrightarrow>
           (\<exists>xs. b (soap_log w) (''createRequest'', [(''sid'', PString sid), (''creatorHandle'', PString ch),
                    (''attrVals'', PArray av), (''propertyValues'', PArray pv),
                    (''template'', PString t), (''attributes'', PArray at),
                    (''newRequestHandle'', PString nh),
                    (''newRequestNumber'', PString nn)]) = Inr (Elements xs)
                 \<and> t' = \<lparr>NewRequestHandle = xml_field ''newRequestHandle'' xs,
                          NewRequestNumber = xml_field ''newRequestNumber'' xs\<rparr>))"
  by (auto simp: createRequest_def client_Call_def client_Unmarshal_def Let_def
           split: sum.splits soap_body.splits)



lemma openTicket_calls:
  assumes "openTicket cfg b description summary pcat w = (r, w')"
  shows "\<exists>sid h n. 0 < n \<and> n \<le> 3 \<and> (isl r \<or> n = 3) \<and>
           soap_log w' = soap_log w @ take n
         [(''login'', [(''username'', PString (SDMUsername cfg)), (''password'', PString (SDMPassword cfg))]),
          (''getHandleForUserid'', [(''sid'', PString sid), (''userID'', PString (SDMUsername cfg))]),
          (''createRequest'',
             [(''sid'', PString sid), (''creatorHandle'', PString h),
              (''attrVals'', PArray
                 [(''string'', ''customer''), (''string'', h),
                  (''string'', ''category''), (''string'', ''pcat:'' @ pcat),
                  (''string'', ''description''), (''string'', description),
                  (''string'', ''summary''), (''string'', summary),
                  (''string'', ''urgency''), (''string'', ''2''),
                  (''string'', ''impact''), (''string'', ''4''),
                  (''string'', ''group''), (''string'', ''5FA1B7BE4CFA2E4C9B19E115AE49A642''),
                  (''string'', ''type''), (''string'', ''crt:182'')]),
              (''propertyValues'', PArray []), (''template'', PString ''''),
              (''attributes'', PArray []), (''newRequestHandle'', PString ''''),
              (''newRequestNumber'', PString '''')])]"
proof -
  obtain rl w1 where l: "login b (SDMUsername cfg) (SDMPassword cfg) w = (rl, w1)"
    by (cases "login b (SDMUsername cfg) (SDMPassword cfg) w")
  note L = login_res[OF l]
  show ?thesis
  proof (cases rl)
    case (Inl e)
    with assms l have "r = Inl e" "w' = w1" by (simp_all add: openTicket_def)
    with L show ?thesis
      by (intro exI[of _ "[]"] exI[of _ "Suc 0"]) simp
  next
    case (Inr lr)
    obtain rh w2 where h: "getHandle b (LoginReturn lr) (SDMUsername cfg) w1 = (rh, w2)"
      by (cases "getHandle b (LoginReturn lr) (SDMUsername cfg) w1")
    note H = getHandle_res[OF h]
    show ?thesis
    proof (cases rh)
      case (Inl e)
      with assms l h Inr have "r = Inl e" "w' = w2" by (simp_all add: openTicket_def)
      with L H show ?thesis
        by (intro exI[of _ "LoginReturn lr"] exI[of _ "[]"] exI[of _ "Suc (Suc 0)"]) simp
    next
      case hr: (Inr h)
      obtain r3 w3 where c: "createRequest b (LoginReturn lr) (GetHandleForUserIDReturn h)
        [(''string'', ''customer''), (''string'', GetHandleForUserIDReturn h),
         (''string'', ''category''), (''string'', ''pcat:'' @ pcat),
         (''string'', ''description''), (''string'', description),
         (''string'', ''summary''), (''string'', summary),
         (''string'', ''urgency''), (''string'', ''2''),
         (''string'', ''impact''), (''string'', ''4''),
         (''string'', ''group''), (''string'', ''5FA1B7BE4CFA2E4C9B19E115AE49A642''),
         (''string'', ''type''), (''string'', ''crt:182'')] [] [] [] [] [] w2 = (r3, w3)"
        by (cases "createRequest b (LoginReturn lr) (GetHandleForUserIDReturn h)
        [(''string'', ''customer''), (''string'', GetHandleForUserIDReturn h),
         (''string'', ''category''), (''string'', ''pcat:'' @ pcat),
         (''string'', ''description''), (''string'', description),
         (''string'', ''summary''), (''string'', summary),
         (''string'', ''urgency''), (''string'', ''2''),
         (''string'', ''impact''), (''string'', ''4''),
         (''string'', ''group''), (''string'', ''5FA1B7BE4CFA2E4C9B19E115AE49A642''),
         (''string'', ''type''), (''string'', ''crt:182'')] [] [] [] [] [] w2")
      note C = createRequest_res[OF c]
      from assms l h c Inr hr have "w' = w3" "isl r \<or> True"
        by (auto simp: openTicket_def Let_def split: sum.splits)
      with L H C show ?thesis
        by (intro exI[of _ "LoginReturn lr"] exI[of _ "GetHandleForUserIDReturn h"] exI[of _ "3"]) simp
    qed
  qed
qed

lemma closeTicket_calls:
  assumes "closeTicket cfg b objectHandle w = (r, w')"
  shows "\<exists>sid n. 0 < n \<and> n \<le> 2 \<and> (isl r \<or> n = 2) \<and>
           soap_log w' = soap_log w @ take n
         [(''login'', [(''username'', PString (SDMUsername cfg)), (''password'', PString (SDMPassword cfg))]),
          (''updateObject'',
             [(''sid'', PString sid), (''objectHandle'', PString objectHandle),
              (''attrVals'', PArray
                 [(''string'', ''status''), (''string'', ''RE''),
                  (''string'', ''rootcause''), (''string'', ''rc:400174'')]),
              (''attributes'', PArray [(''string'', ''status''), (''string'', ''rootcause'')])])]"
proof -
  obtain rl w1 where l: "login b (SDMUsername cfg) (SDMPassword cfg) w = (rl, w1)"
    by (cases "login b (SDMUsername cfg) (SDMPassword cfg) w")
  note L = login_res[OF l]
  show ?thesis
  proof (cases rl)
    case (Inl e)
    with assms l have "r = Inl e" "w' = w1" by (simp_all add: closeTicket_def)
    with L show ?thesis
      by (intro exI[of _ "[]"] exI[of _ "Suc 0"]) simp
  next
    case (Inr lr)
    obtain r2 w2 where c: "updateObject b (LoginReturn lr) objectHandle
        [(''string'', ''status''), (''string'', ''RE''),
         (''string'', ''rootcause''), (''string'', ''rc:400174'')]
        [(''string'', ''status''), (''string'', ''rootcause'')] w1 = (r2, w2)"
      by (cases "updateObject b (LoginReturn lr) objectHandle
        [(''string'', ''status''), (''string'', ''RE''),
         (''string'', ''rootcause''), (''string'', ''rc:400174'')]
        [(''string'', ''status''), (''string'', ''rootcause'')] w1")
    note C = updateObject_res[OF c]
    from assms l c Inr have "w' = w2"
      by (auto simp: closeTicket_def Let_def split: sum.splits)
    with L C show ?thesis
      by (intro exI[of _ "LoginReturn lr"] exI[of _ "2"]) simp
  qed
qed

text \<open>
  Claim C7. The create flow issues, in this order, \<open>login\<close>, \<open>getHandleForUserid\<close> and
  \<open>createRequest\<close>, the last with \<open>attrVals\<close> exactly customer, the handle, category,
  \<open>pcat:\<close> and the category code, description, the details, summary, the title, urgency 2,
  impact 4, group 5FA1B7BE4CFA2E4C9B19E115AE49A642, type \<open>crt:182\<close>; the close flow issues
  \<open>login\<close> and then \<open>updateObject\<close> with \<open>attrVals\<close> status, RE, rootcause,
  \<open>rc:400174\<close> and \<open>attributes\<close> status, rootcause. A flow stops at its first failing
  call, so the calls it issues are the first \<open>n\<close> of the sequence, and all of them when it
  succeeds.
\<close>

theorem remote_flows_call_sequence:
  "(\<exists>sid h n. 0 < n \<and> n \<le> 3
       \<and> (isl (fst (openTicket cfg b description summary pcat w)) \<or> n = 3)
       \<and> soap_log (snd (openTicket cfg b description summary pcat w)) = soap_log w @ take n
         [(''login'', [(''username'', PString (SDMUsername cfg)), (''password'', PString (SDMPassword cfg))]),
          (''getHandleForUserid'', [(''sid'', PString sid), (''userID'', PString (SDMUsername cfg))]),
          (''createRequest'',
             [(''sid'', PString sid), (''creatorHandle'', PString h),
              (''attrVals'', PArray
                 [(''string'', ''customer''), (''string'', h),
                  (''string'', ''category''), (''string'', ''pcat:'' @ pcat),
                  (''string'', ''description''), (''string'', description),
                  (''string'', ''summary''), (''string'', summary),
                  (''string'', ''urgency''), (''string'', ''2''),
                  (''string'', ''impact''), (''string'', ''4''),
                  (''string'', ''group''), (''string'', ''5FA1B7BE4CFA2E4C9B19E115AE49A642''),
                  (''string'', ''type''), (''string'', ''crt:182'')]),
              (''propertyValues'', PArray []), (''template'', PString ''''),
              (''attributes'', PArray []), (''newRequestHandle'', PString ''''),
              (''newRequestNumber'', PString '''')])])
   \<and> (\<exists>sid n. 0 < n \<and> n \<le> 2
       \<and> (isl (fst (closeTicket cfg b objectHandle w)) \<or> n = 2)
       \<and> soap_log (snd (closeTicket cfg b objectHandle w)) = soap_log w @ take n
         [(''login'', [(''username'', PString (SDMUsername cfg)), (''password'', PString (SDMPassword cfg))]),
          (''updateObject'',
             [(''sid'', PString sid), (''objectHandle'', PString objectHandle),
              (''attrVals'', PArray
                 [(''string'', ''status''), (''string'', ''RE''),
                  (''string'', ''rootcause''), (''string'', ''rc:400174'')]),
              (''attributes'', PArray [(''string'', ''status''), (''string'', ''rootcause'')])])])"
  using openTicket_calls[of cfg b description summary pcat w
          "fst (openTicket cfg b description summary pcat w)"
          "snd (openTicket cfg b description summary pcat w)"]
        closeTicket_calls[of cfg b objectHandle w
          "fst (closeTicket cfg b objectHandle w)" "snd (closeTicket cfg b objectHandle w)"]
  by simp

section \<open>Frames and the store\<close>

lemma openTicket_frame:
  assumes "openTicket cfg b description summary pcat w = (r, w')"
  shows "storage_json w' = storage_json w \<and> writable w' = writable w"
proof -
  obtain rl w1 where l: "login b (SDMUsername cfg) (SDMPassword cfg) w = (rl, w1)"
    by (cases "login b (SDMUsername cfg) (SDMPassword cfg) w")
  have 1: "storage_json w1 = storage_json w \<and> writable w1 = writable w"
    using login_res[OF l] by simp
  show ?thesis
  proof (cases rl)
    case (Inl e)
    with assms l 1 show ?thesis by (simp add: openTicket_def)
  next
    case (Inr lr)
    obtain rh w2 where h: "getHandle b (LoginReturn lr) (SDMUsername cfg) w1 = (rh, w2)"
      by (cases "getHandle b (LoginReturn lr) (SDMUsername cfg) w1")
    have 2: "storage_json w2 = storage_json w \<and> writable w2 = writable w"
      using getHandle_res[OF h] 1 by simp
    show ?thesis
    proof (cases rh)
      case (Inl e)
      with assms l h Inr 2 show ?thesis by (simp add: openTicket_def)
    next
      case hr: (Inr h)
      from assms l h Inr hr obtain r3 av where
        "createRequest b (LoginReturn lr) (GetHandleForUserIDReturn h) av [] [] [] [] [] w2 = (r3, w')"
        by (auto simp: openTicket_def Let_def split: prod.splits sum.splits)
      from createRequest_res[OF this] 2 show ?thesis by simp
    qed
  qed
qed

lemma closeTicket_frame:
  assumes "closeTicket cfg b objectHandle w = (r, w')"
  shows "storage_json w' = storage_json w \<and> writable w' = writable w"
proof -
  obtain rl w1 where l: "login b (SDMUsername cfg) (SDMPassword cfg) w = (rl, w1)"
    by (cases "login b (SDMUsername cfg) (SDMPassword cfg) w")
  have 1: "storage_json w1 = storage_json w \<and> writable w1 = writable w"
    using login_res[OF l] by simp
  show ?thesis
  proof (cases rl)
    case (Inl e)
    with assms l 1 show ?thesis by (simp add: closeTicket_def)
  next
    case (Inr lr)
    from assms l Inr obtain r2 av at where
      "updateObject b (LoginReturn lr) objectHandle av at w1 = (r2, w')"
      by (auto simp: closeTicket_def Let_def split: prod.splits sum.splits)
    from updateObject_res[OF this] 1 show ?thesis by simp
  qed
qed

lemma attempt_from_invariant:
  assumes step: "\<And>a s r s'. P s \<Longrightarrow> fn a s = (r, s') \<Longrightarrow> P s'"
    and "P s" and "attempt_from left made e fn s = (r, s')"
  shows "P s'"
  using assms(2,3)
proof (induction left arbitrary: made e s)
  case 0
  then show ?case by simp
next
  case (Suc left)
  obtain fl fe s1 where f: "fn (Suc made) s = ((fl, fe), s1)"
    by (cases "fn (Suc made) s") auto
  have p1: "P s1" using step[OF Suc.prems(1) f] .
  show ?case
  proof (cases fe)
    case None
    with Suc.prems(2) f p1 show ?thesis by simp
  next
    case (Some e')
    with Suc.prems(2) f have "attempt_from left (Suc made) e' fn s1 = (r, s')" by simp
    from Suc.IH[OF p1 this] show ?thesis .
  qed
qed

lemma attempt_from_success_last:
  assumes step: "\<And>a s r s'. P s \<Longrightarrow> fn a s = (r, s') \<Longrightarrow> P s'"
    and "P s" and "attempt_from left made e fn s = (None, s')"
  shows "\<exists>a s0 fl. P s0 \<and> fn a s0 = ((fl, None), s')"
  using assms(2,3)
proof (induction left arbitrary: made e s)
  case 0
  then show ?case by simp
next
  case (Suc left)
  obtain fl fe s1 where f: "fn (Suc made) s = ((fl, fe), s1)"
    by (cases "fn (Suc made) s") auto
  have p1: "P s1" using step[OF Suc.prems(1) f] .
  show ?case
  proof (cases fe)
    case None
    with Suc.prems f show ?thesis by auto
  next
    case (Some e')
    with Suc.prems(2) f have "attempt_from left (Suc made) e' fn s1 = (None, s')" by simp
    from Suc.IH[OF p1 this] show ?thesis .
  qed
qed

lemma loadStorage_cases:
  "loadStorage w =
     (case storage_json w of
        None \<Rightarrow> if writable w then (Inr \<lparr>Problems = Some Map.empty\<rparr>, w\<lparr>storage_json := Some Undecodable\<rparr>)
                else (Inl (Fatal (''Could not create storage.json: '' @ ''open storage.json: permission denied'')), w)
      | Some Undecodable \<Rightarrow> (Inr \<lparr>Problems = Some Map.empty\<rparr>, w)
      | Some (Document s) \<Rightarrow> (Inr s, w))"
  by (simp add: loadStorage_def os_Open_def os_Create_def json_Unmarshal_def
           split: option.splits file_content.splits)

lemma getTicket_found:
  "stored_mapping w (ProblemID problem) = Some t \<Longrightarrow>
     getTicketNumberFromStorage problem w = (Inr (Some t), w)"
  by (auto simp: getTicketNumberFromStorage_def loadStorage_cases stored_mapping_def
           split: option.splits file_content.splits)

lemma getTicket_missing:
  "stored_mapping w (ProblemID problem) = None \<Longrightarrow> storage_json w \<noteq> None \<or> writable w \<Longrightarrow>
     \<exists>w'. getTicketNumberFromStorage problem w = (Inr None, w')
        \<and> soap_log w' = soap_log w \<and> stored_mapping w' = stored_mapping w"
  by (auto simp: getTicketNumberFromStorage_def loadStorage_cases stored_mapping_def
           split: option.splits file_content.splits)

lemma getTicket_frame:
  "getTicketNumberFromStorage problem w = (r, w') \<Longrightarrow>
     soap_log w' = soap_log w \<and> stored_mapping w' = stored_mapping w \<and> writable w' = writable w
     \<and> (store_ok w \<longrightarrow> store_ok w')"
  by (auto simp: getTicketNumberFromStorage_def loadStorage_cases stored_mapping_def store_ok_def
           split: option.splits file_content.splits if_splits)

lemma storeNewProblem_ok:
  assumes "store_ok w"
  shows "fst (storeNewProblem problem ticket w) = Inr ()
        \<and> stored_mapping (snd (storeNewProblem problem ticket w))
            = (stored_mapping w)(ProblemID problem \<mapsto> ticket)
        \<and> soap_log (snd (storeNewProblem problem ticket w)) = soap_log w
        \<and> store_ok (snd (storeNewProblem problem ticket w))"
proof (cases "storage_json w")
  case None
  with assms show ?thesis
    by (simp add: storeNewProblem_def loadStorage_cases stored_mapping_def store_ok_def
          ioutil_WriteFile_def json_MarshalIndent_def Let_def)
next
  case (Some c)
  show ?thesis
  proof (cases c)
    case Undecodable
    with Some assms show ?thesis
      by (simp add: storeNewProblem_def loadStorage_cases stored_mapping_def store_ok_def
            ioutil_WriteFile_def json_MarshalIndent_def Let_def)
  next
    case (Document st)
    with Some assms obtain m where "Problems st = Some m" by (auto simp: store_ok_def)
    with Document Some assms show ?thesis
      by (simp add: storeNewProblem_def loadStorage_cases stored_mapping_def store_ok_def
            ioutil_WriteFile_def json_MarshalIndent_def Let_def)
  qed
qed

lemma storeNewProblem_frame:
  "storeNewProblem problem ticket w = (r, w') \<Longrightarrow>
     soap_log w' = soap_log w \<and> writable w' = writable w \<and> (store_ok w \<longrightarrow> store_ok w')
     \<and> (stored_mapping w' = stored_mapping w
          \<or> r = Inr () \<and> stored_mapping w' = (stored_mapping w)(ProblemID problem \<mapsto> ticket))"
  by (auto simp: storeNewProblem_def loadStorage_cases stored_mapping_def store_ok_def
             ioutil_WriteFile_def json_MarshalIndent_def Let_def
           split: option.splits file_content.splits if_splits)

section \<open>The handler on OPEN events\<close>

lemma openAttempt_frame:
  "openAttempt cfg b problem title a s = (r, s') \<Longrightarrow>
     storage_json (snd s') = storage_json (snd s) \<and> writable (snd s') = writable (snd s)"
  using openTicket_frame[of cfg b "ProblemDetailsText problem" title "Pcat problem" "snd s"]
  by (auto simp: openAttempt_def split: prod.splits sum.splits)

lemma closeAttempt_frame:
  "closeAttempt cfg b ticket a s = (r, s') \<Longrightarrow>
     storage_json (snd s') = storage_json (snd s) \<and> writable (snd s') = writable (snd s)"
  using closeTicket_frame[of cfg b "NewRequestHandle ticket" "snd s"]
  by (auto simp: closeAttempt_def split: prod.splits sum.splits)

lemma try_Do_open_frame:
  assumes "try_Do n (openAttempt cfg b problem title) (tk, w) = (r, (tk', w'))"
  shows "storage_json w' = storage_json w \<and> writable w' = writable w"
proof -
  let ?P = "\<lambda>s. storage_json (snd s) = storage_json w \<and> writable (snd s) = writable w"
  have "?P (tk', w')"
  proof (rule attempt_from_invariant[where P = ?P])
    show "?P (tk, w)" by simp
    show "attempt_from n 0 [] (openAttempt cfg b problem title) (tk, w) = (r, (tk', w'))"
      using assms by (simp add: try_Do_def)
    fix a s r s'
    assume "?P s" and "openAttempt cfg b problem title a s = (r, s')"
    then show "?P s'" using openAttempt_frame[of cfg b problem title a s r s'] by simp
  qed
  then show ?thesis by simp
qed

lemma try_Do_close_frame:
  assumes "try_Do n (closeAttempt cfg b ticket) (tk, w) = (r, (tk', w'))"
  shows "storage_json w' = storage_json w \<and> writable w' = writable w"
proof -
  let ?P = "\<lambda>s. storage_json (snd s) = storage_json w \<and> writable (snd s) = writable w"
  have "?P (tk', w')"
  proof (rule attempt_from_invariant[where P = ?P])
    show "?P (tk, w)" by simp
    show "attempt_from n 0 [] (closeAttempt cfg b ticket) (tk, w) = (r, (tk', w'))"
      using assms by (simp add: try_Do_def)
    fix a s r s'
    assume "?P s" and "closeAttempt cfg b ticket a s = (r, s')"
    then show "?P s'" using closeAttempt_frame[of cfg b ticket a s r s'] by simp
  qed
  then show ?thesis by simp
qed

lemma frame_stored_mapping:
  "storage_json w' = storage_json w \<Longrightarrow> stored_mapping w' = stored_mapping w"
  by (simp add: stored_mapping_def)

lemma frame_store_ok:
  "storage_json w' = storage_json w \<Longrightarrow> writable w' = writable w \<Longrightarrow> store_ok w' = store_ok w"
  by (simp add: store_ok_def)

lemma openTicket_last_created:
  assumes "openTicket cfg b description summary pcat w = (Inr t, w')"
  shows "last_created b (soap_log w') = Some t"
proof -
  from assms obtain l w1 where l: "login b (SDMUsername cfg) (SDMPassword cfg) w = (Inr l, w1)"
    by (auto simp: openTicket_def split: prod.splits sum.splits)
  with assms obtain h w2 where h: "getHandle b (LoginReturn l) (SDMUsername cfg) w1 = (Inr h, w2)"
    by (auto simp: openTicket_def split: prod.splits sum.splits)
  from assms l h obtain av where
    c: "createRequest b (LoginReturn l) (GetHandleForUserIDReturn h) av [] [] [] [] [] w2 = (Inr t, w')"
    by (auto simp: openTicket_def Let_def split: prod.splits sum.splits)
  from createRequest_res[OF c] show ?thesis
    by (auto simp: last_created_def)
qed

lemma try_Do_open_success:
  assumes "try_Do n (openAttempt cfg b problem title) (None, w) = (None, (tk, w1))"
  shows "\<exists>t. tk = Some t \<and> last_created b (soap_log w1) = Some t"
proof -
  have "\<exists>a s0 fl. True \<and> openAttempt cfg b problem title a s0 = ((fl, None), (tk, w1))"
    by (rule attempt_from_success_last[where P = "\<lambda>_. True"])
       (use assms in \<open>simp_all add: try_Do_def\<close>)
  then obtain a s0 fl where "openAttempt cfg b problem title a s0 = ((fl, None), (tk, w1))"
    by blast
  then obtain t where "tk = Some t"
    "openTicket cfg b (ProblemDetailsText problem) title (Pcat problem) (snd s0) = (Inr t, w1)"
    by (auto simp: openAttempt_def split: prod.splits sum.splits)
  with openTicket_last_created show ?thesis by blast
qed

text \<open>
  Claim C1. For an event with state OPEN whose retried create flow returns no error, in a
  world where the store can be written: the handler answers with status 200, \<open>error = false\<close>
  and the message \<open>Opened ticket: \<close> followed by the new ticket's number; the ticket is
  the one the flow returned, which the backend gave in answer to the last
  \<open>createRequest\<close>; and afterwards the store maps
  the event's ProblemID to that ticket and is otherwise unchanged.
\<close>

theorem open_event_stores_ticket:
  assumes "State problem = ''OPEN''"
    and "store_ok w"
    and "fst (try_Do (MaxRetries g) (openAttempt (config g) b problem (problem_title problem)) (None, w)) = None"
  shows "\<exists>ticket w'.
           SDMHandler g b (Inr problem) w
             = (Inr \<lparr>status = 200,
                     body = \<lparr>Error = False, Message = ''Opened ticket: '' @ NewRequestNumber ticket\<rparr>\<rparr>, w')
           \<and> fst (snd (try_Do (MaxRetries g)
                           (openAttempt (config g) b problem (problem_title problem)) (None, w)))
               = Some ticket
           \<and> last_created b (soap_log w') = Some ticket
           \<and> stored_mapping w' = (stored_mapping w)(ProblemID problem \<mapsto> ticket)"
proof -
  obtain tk w1 where d: "try_Do (MaxRetries g) (openAttempt (config g) b problem (problem_title problem)) (None, w)
      = (None, (tk, w1))"
    using assms(3)
    by (cases "try_Do (MaxRetries g) (openAttempt (config g) b problem (problem_title problem)) (None, w)")
       auto
  from try_Do_open_success[OF d] obtain t where t: "tk = Some t" "last_created b (soap_log w1) = Some t"
    by blast
  from try_Do_open_frame[OF d] have f: "storage_json w1 = storage_json w" "writable w1 = writable w"
    by simp_all
  then have ok1: "store_ok w1" using assms(2) frame_store_ok[of w1 w] by simp
  note S = storeNewProblem_ok[OF ok1, of problem t]
  obtain w2 where w2: "storeNewProblem problem t w1 = (Inr (), w2)"
    using S by (cases "storeNewProblem problem t w1") auto
  with S have m: "stored_mapping w2 = (stored_mapping w1)(ProblemID problem \<mapsto> t)"
    and lg: "soap_log w2 = soap_log w1" by simp_all
  have "SDMHandler g b (Inr problem) w
          = (Inr \<lparr>status = 200,
                  body = \<lparr>Error = False, Message = ''Opened ticket: '' @ NewRequestNumber t\<rparr>\<rparr>, w2)"
    using assms(1) d t(1) w2 by (simp add: SDMHandler_def)
  moreover have "fst (snd (try_Do (MaxRetries g)
                    (openAttempt (config g) b problem (problem_title problem)) (None, w))) = Some t"
    using d t(1) by simp
  moreover have "last_created b (soap_log w2) = Some t" using t(2) lg by simp
  moreover have "stored_mapping w2 = (stored_mapping w)(ProblemID problem \<mapsto> t)"
    using m frame_stored_mapping[OF f(1)] by simp
  ultimately show ?thesis by blast
qed

section \<open>Running the model on concrete inputs\<close>

lemma attempt_from_numeral:
  "attempt_from (numeral k) made e fn s =
     (case fn (Suc made) s of
        ((_, None), s') \<Rightarrow> (None, s')
      | ((_, Some e'), s') \<Rightarrow> attempt_from (pred_numeral k) (Suc made) e' fn s')"
  by (simp add: numeral_eq_Suc)

lemma invocation_numeral:
  "invocation fn s (numeral k) = fn (numeral k) (snd (invocation fn s (pred_numeral k)))"
  by (simp add: numeral_eq_Suc)

lemmas remote_defs =
  openAttempt_def closeAttempt_def openTicket_def closeTicket_def
  login_def getHandle_def createRequest_def updateObject_def client_Call_def client_Unmarshal_def
  xml_field_def Let_def

lemmas store_defs =
  storeNewProblem_def getTicketNumberFromStorage_def loadStorage_def os_Open_def os_Create_def
  json_Unmarshal_def json_MarshalIndent_def ioutil_WriteFile_def

lemmas scenario_defs =
  demo_backend_def down_backend_def demo_globals_def demo_config_def fresh_world_def
  stored_world_def P1_open_def P1_resolved_def P2_resolved_def problem_title_def

lemma flaky_failure:
  "failure_of (invocation (flaky k) u i) = (if 1 \<le> i \<and> i \<le> k then Some ''timeout'' else None)"
  by (cases i) (simp_all add: flaky_def failure_of_def)

text \<open>
  Claim C2 on an operation that fails twice and then succeeds, under a bound of 5: three
  invocations and success; and on one that fails seven times, under a bound of 3: three
  invocations and a failure that reports 3 attempts.
\<close>

theorem try_Do_retry_policy_witness:
  "(2::nat) < 5
   \<and> failure_of (invocation (flaky 2) () 1) \<noteq> None
   \<and> failure_of (invocation (flaky 2) () 2) \<noteq> None
   \<and> failure_of (invocation (flaky 2) () 3) = None
   \<and> try_Do 5 (flaky 2) () = (None, ())
   \<and> try_Do 5 (counted (flaky 2)) (0, ()) = (None, (3, ()))
   \<and> failure_of (invocation (flaky 7) () 1) \<noteq> None
   \<and> failure_of (invocation (flaky 7) () 2) \<noteq> None
   \<and> failure_of (invocation (flaky 7) () 3) \<noteq> None
   \<and> (\<exists>e. attempts e = 3 \<and> try_Do 3 (flaky 7) () = (Some e, ())
          \<and> try_Do 3 (counted (flaky 7)) (0, ()) = (Some e, (3, ())))"
proof -
  have h1: "(2::nat) < 5 \<and> (\<forall>i\<in>{1..2}. failure_of (invocation (flaky 2) () i) \<noteq> None)
      \<and> failure_of (invocation (flaky 2) () (Suc 2)) = None"
    by (simp add: flaky_failure del: invocation.simps)
  have h2: "\<forall>i\<in>{1..3}. failure_of (invocation (flaky 7) () i) \<noteq> None"
    by (simp add: flaky_failure del: invocation.simps)
  have e: "failure_of (invocation (flaky 2) () 1) \<noteq> None
      \<and> failure_of (invocation (flaky 2) () 2) \<noteq> None
      \<and> failure_of (invocation (flaky 2) () 3) = None
      \<and> failure_of (invocation (flaky 7) () 1) \<noteq> None
      \<and> failure_of (invocation (flaky 7) () 2) \<noteq> None
      \<and> failure_of (invocation (flaky 7) () 3) \<noteq> None"
    by (simp add: flaky_failure del: invocation.simps)
  from h1 try_Do_retry_policy[of 2 5 "flaky 2" "()"]
  have c1: "try_Do 5 (flaky 2) () = (None, ())
            \<and> try_Do 5 (counted (flaky 2)) (0, ()) = (None, (3, ()))"
    by (simp del: invocation.simps)
  from h2 try_Do_retry_policy[of 0 3 "flaky 7" "()"]
  have c2: "\<exists>e. attempts e = 3 \<and> try_Do 3 (flaky 7) () = (Some e, ())
          \<and> try_Do 3 (counted (flaky 7)) (0, ()) = (Some e, (3, ()))"
    by (simp del: invocation.simps)
  from e c1 c2 show ?thesis by simp
qed


lemma demo_open_attempt:
  "openAttempt demo_config demo_backend P1_open (problem_title P1_open) a (tk, fresh_world)
     = ((False, None),
        (Some \<lparr>NewRequestHandle = ''H1'', NewRequestNumber = ''INC001''\<rparr>,
         snd (snd (openAttempt demo_config demo_backend P1_open (problem_title P1_open) a (tk, fresh_world)))))"
  by (simp add: remote_defs demo_backend_def)

text \<open>
  Claim C1 on the spec's scenario 1: problem P1 opens with a backend that answers the
  first attempt with handle H1 and number INC001.
\<close>

theorem open_event_stores_ticket_witness:
  "State P1_open = ''OPEN'' \<and> store_ok fresh_world
   \<and> fst (try_Do (MaxRetries demo_globals)
            (openAttempt (config demo_globals) demo_backend P1_open (problem_title P1_open))
            (None, fresh_world)) = None
   \<and> (\<exists>w'. SDMHandler demo_globals demo_backend (Inr P1_open) fresh_world
             = (Inr \<lparr>status = 200, body = \<lparr>Error = False, Message = ''Opened ticket: INC001''\<rparr>\<rparr>, w')
          \<and> stored_mapping w' ''P1'' = Some \<lparr>NewRequestHandle = ''H1'', NewRequestNumber = ''INC001''\<rparr>)"
proof -
  have h1: "State P1_open = ''OPEN''" by (simp add: P1_open_def)
  have h2: "store_ok fresh_world" by (simp add: store_ok_def fresh_world_def)
  have d: "try_Do (MaxRetries demo_globals)
            (openAttempt (config demo_globals) demo_backend P1_open (problem_title P1_open))
            (None, fresh_world)
           = (None, (Some \<lparr>NewRequestHandle = ''H1'', NewRequestNumber = ''INC001''\<rparr>,
         snd (snd (openAttempt demo_config demo_backend P1_open (problem_title P1_open) 1 (None, fresh_world)))))"
    unfolding try_Do_def demo_globals_def globals.simps attempt_from_numeral
    by (subst demo_open_attempt) simp
  then have h3: "fst (try_Do (MaxRetries demo_globals)
            (openAttempt (config demo_globals) demo_backend P1_open (problem_title P1_open))
            (None, fresh_world)) = None"
    by simp
  from open_event_stores_ticket[OF h1 h2 h3] obtain ticket w' where
    r: "SDMHandler demo_globals demo_backend (Inr P1_open) fresh_world
          = (Inr \<lparr>status = 200,
                  body = \<lparr>Error = False, Message = ''Opened ticket: '' @ NewRequestNumber ticket\<rparr>\<rparr>, w')"
    and t: "fst (snd (try_Do (MaxRetries demo_globals)
            (openAttempt (config demo_globals) demo_backend P1_open (problem_title P1_open))
            (None, fresh_world))) = Some ticket"
    and m: "stored_mapping w' = (stored_mapping fresh_world)(ProblemID P1_open \<mapsto> ticket)"
    by blast
  from t d have "ticket = \<lparr>NewRequestHandle = ''H1'', NewRequestNumber = ''INC001''\<rparr>"
    by simp
  with r m h1 h2 h3 show ?thesis by (simp add: P1_open_def)
qed

section \<open>The handler and the store\<close>

lemma try_Do_split:
  obtains e tk w1 where "try_Do n fn (s::'a \<times> world) = (Some e, (tk, w1))"
  | tk w1 where "try_Do n fn s = (None, (tk, w1))"
  by (cases "try_Do n fn s"; cases "fst (try_Do n fn s)") auto

lemma SDMHandler_store_frame:
  assumes "SDMHandler g b request w = (r, w')"
  shows "writable w' = writable w \<and> (store_ok w \<longrightarrow> store_ok w')
       \<and> (stored_mapping w' = stored_mapping w
          \<or> (\<exists>problem t resp. request = Inr problem \<and> State problem = ''OPEN''
                \<and> r = Inr resp \<and> \<not> Error (body resp)
                \<and> stored_mapping w' = (stored_mapping w)(ProblemID problem \<mapsto> t)))"
proof (cases request)
  case (Inl e)
  with assms show ?thesis by (simp add: SDMHandler_def)
next
  case (Inr problem)
  consider (op) "State problem = ''OPEN''"
    | (res) "State problem \<noteq> ''OPEN''" "State problem = ''RESOLVED''"
    | (other) "State problem \<noteq> ''OPEN''" "State problem \<noteq> ''RESOLVED''"
    by blast
  then show ?thesis
  proof cases
    case op
    let ?fn = "openAttempt (config g) b problem (problem_title problem)"
    show ?thesis
    proof (cases rule: try_Do_split[of "MaxRetries g" ?fn "(None, w)"])
      case (1 e tk w1)
      from try_Do_open_frame[OF 1] have f: "storage_json w1 = storage_json w" "writable w1 = writable w"
        by simp_all
      from assms Inr op 1 have "w' = w1" by (simp add: SDMHandler_def)
      with f frame_stored_mapping[OF f(1)] frame_store_ok[OF f] show ?thesis by simp
    next
      case (2 tk w1)
      from try_Do_open_frame[OF 2] have f: "storage_json w1 = storage_json w" "writable w1 = writable w"
        by simp_all
      note f1 = frame_stored_mapping[OF f(1)] frame_store_ok[OF f]
      show ?thesis
      proof (cases tk)
        case None
        with assms Inr op 2 have "w' = w1" by (simp add: SDMHandler_def)
        with f f1 show ?thesis by simp
      next
        case (Some t)
        obtain sr w2 where s: "storeNewProblem problem t w1 = (sr, w2)"
          by (cases "storeNewProblem problem t w1")
        note F = storeNewProblem_frame[OF s]
        show ?thesis
        proof (cases sr)
          case (Inl a)
          with assms Inr op 2 Some s have "w' = w2" by (simp add: SDMHandler_def)
          with F Inl f f1 show ?thesis by auto
        next
          case u: (Inr u)
          with assms Inr op 2 Some s have "w' = w2"
            "r = Inr \<lparr>status = 200,
                      body = \<lparr>Error = False, Message = ''Opened ticket: '' @ NewRequestNumber t\<rparr>\<rparr>"
            by (simp_all add: SDMHandler_def)
          with F f f1 Inr op show ?thesis by auto
        qed
      qed
    qed
  next
    case res
    obtain gr w1 where gt: "getTicketNumberFromStorage problem w = (gr, w1)"
      by (cases "getTicketNumberFromStorage problem w")
    note G = getTicket_frame[OF gt]
    show ?thesis
    proof (cases gr)
      case (Inl a)
      with assms Inr res gt have "w' = w1" by (simp add: SDMHandler_def)
      with G show ?thesis by simp
    next
      case go: (Inr found)
      show ?thesis
      proof (cases found)
        case None
        with assms Inr res gt go have "w' = w1" by (simp add: SDMHandler_def)
        with G show ?thesis by simp
      next
        case (Some ticket)
        let ?fn = "closeAttempt (config g) b ticket"
        show ?thesis
        proof (cases rule: try_Do_split[of "MaxRetries g" ?fn "(None, w1)"])
          case (1 e tk w2)
          from try_Do_close_frame[OF 1] have f: "storage_json w2 = storage_json w1" "writable w2 = writable w1"
            by simp_all
          from assms Inr res gt go Some 1 have "w' = w2" by (simp add: SDMHandler_def)
          with G f frame_stored_mapping[OF f(1)] frame_store_ok[OF f] show ?thesis by simp
        next
          case (2 tk w2)
          from try_Do_close_frame[OF 2] have f: "storage_json w2 = storage_json w1" "writable w2 = writable w1"
            by simp_all
          from assms Inr res gt go Some 2 have "w' = w2" by (simp add: SDMHandler_def)
          with G f frame_stored_mapping[OF f(1)] frame_store_ok[OF f] show ?thesis by simp
        qed
      qed
    qed
  next
    case other
    with assms Inr show ?thesis by (simp add: SDMHandler_def)
  qed
qed

text \<open>
  Claim C9. Unless the request is an OPEN event answered with a success Outcome, the
  mapping of the store is the same after the handler as before: so it is after a failure
  Outcome, after a RESOLVED event, after an event of any other state, and also when the
  body does not decode or the run aborts.
\<close>

theorem mapping_changes_only_on_open_success:
  assumes "SDMHandler g b request w = (r, w')"
    and "\<not> (\<exists>problem resp. request = Inr problem \<and> State problem = ''OPEN''
             \<and> r = Inr resp \<and> \<not> Error (body resp))"
  shows "stored_mapping w' = stored_mapping w"
  using SDMHandler_store_frame[OF assms(1)] assms(2) by blast

text \<open>
  Claim C6. For a RESOLVED event whose ProblemID the store maps to a ticket and whose
  retried close flow returns no error: the handler answers with status 200,
  \<open>error = false\<close> and the message \<open>Closed ticket: \<close> followed by the stored number, and
  the store's mapping is unchanged, so the entry is still there.
\<close>

theorem resolved_event_closes_and_keeps_entry:
  assumes "State problem = ''RESOLVED''"
    and "stored_mapping w (ProblemID problem) = Some ticket"
    and "fst (try_Do (MaxRetries g) (closeAttempt (config g) b ticket) (None, w)) = None"
  shows "\<exists>w'. SDMHandler g b (Inr problem) w
             = (Inr \<lparr>status = 200,
                     body = \<lparr>Error = False, Message = ''Closed ticket: '' @ NewRequestNumber ticket\<rparr>\<rparr>, w')
           \<and> stored_mapping w' (ProblemID problem) = Some ticket
           \<and> stored_mapping w' = stored_mapping w"
proof -
  obtain tk w2 where d: "try_Do (MaxRetries g) (closeAttempt (config g) b ticket) (None, w) = (None, (tk, w2))"
    using assms(3)
    by (cases "try_Do (MaxRetries g) (closeAttempt (config g) b ticket) (None, w)") auto
  from try_Do_close_frame[OF d] have "storage_json w2 = storage_json w" by simp
  then have m: "stored_mapping w2 = stored_mapping w" by (rule frame_stored_mapping)
  have "SDMHandler g b (Inr problem) w
          = (Inr \<lparr>status = 200,
                  body = \<lparr>Error = False, Message = ''Closed ticket: '' @ NewRequestNumber ticket\<rparr>\<rparr>, w2)"
    using assms(1) getTicket_found[OF assms(2)] d by (simp add: SDMHandler_def)
  with m assms(2) show ?thesis by simp
qed

text \<open>
  Claim C5. For an event whose state is neither OPEN nor RESOLVED, and for a RESOLVED
  event whose ProblemID the store does not map (the file existing, or the process being
  able to create it): the handler answers with the zero Outcome, \<open>error = false\<close> and an
  empty message, and issues no SOAP call.
\<close>

theorem no_action_events_are_silent:
  assumes "State problem \<noteq> ''OPEN''"
    and "State problem = ''RESOLVED'' \<longrightarrow>
           stored_mapping w (ProblemID problem) = None \<and> (storage_json w \<noteq> None \<or> writable w)"
  shows "\<exists>w'. SDMHandler g b (Inr problem) w
             = (Inr \<lparr>status = 200, body = \<lparr>Error = False, Message = ''''\<rparr>\<rparr>, w')
           \<and> soap_log w' = soap_log w \<and> stored_mapping w' = stored_mapping w"
proof (cases "State problem = ''RESOLVED''")
  case True
  with assms(2) have "stored_mapping w (ProblemID problem) = None" "storage_json w \<noteq> None \<or> writable w"
    by simp_all
  from getTicket_missing[OF this] obtain w1 where
    "getTicketNumberFromStorage problem w = (Inr None, w1)"
    "soap_log w1 = soap_log w" "stored_mapping w1 = stored_mapping w" by blast
  with True show ?thesis by (simp add: SDMHandler_def)
next
  case False
  with assms(1) show ?thesis by (simp add: SDMHandler_def)
qed

section \<open>Retry exhaustion, the store round trip, the retry bound\<close>

text \<open>
  Claim C3. When every one of the \<open>MaxRetries\<close> attempts of the create flow (OPEN event)
  or of the close flow (RESOLVED event with a stored ticket) fails, the handler answers
  with status 500, \<open>error = true\<close> and a message that holds the attempt count
  \<open>MaxRetries\<close> and the error of the last attempt.
\<close>

theorem exhausted_retries_report_last_error:
  assumes "0 < MaxRetries g"
  shows "(State problem = ''OPEN''
          \<and> (\<forall>i\<in>{1..MaxRetries g}.
                failure_of (invocation (openAttempt (config g) b problem (problem_title problem))
                              (None, w) i) \<noteq> None)
          \<longrightarrow> (\<exists>e w'. failure_of (invocation (openAttempt (config g) b problem (problem_title problem))
                                     (None, w) (MaxRetries g)) = Some e
                \<and> SDMHandler g b (Inr problem) w
                    = (Inr \<lparr>status = 500,
                            body = \<lparr>Error = True,
                                    Message = ''Could not open ticket after '' @ show_nat (MaxRetries g)
                                                @ '' tries, error: '' @ e\<rparr>\<rparr>, w')))
       \<and> (State problem = ''RESOLVED'' \<and> stored_mapping w (ProblemID problem) = Some ticket
          \<and> (\<forall>i\<in>{1..MaxRetries g}.
                failure_of (invocation (closeAttempt (config g) b ticket) (None, w) i) \<noteq> None)
          \<longrightarrow> (\<exists>e w'. failure_of (invocation (closeAttempt (config g) b ticket)
                                     (None, w) (MaxRetries g)) = Some e
                \<and> SDMHandler g b (Inr problem) w
                    = (Inr \<lparr>status = 500,
                            body = \<lparr>Error = True,
                                    Message = ''Could not close ticket '' @ NewRequestNumber ticket
                                                @ '' after '' @ show_nat (MaxRetries g)
                                                @ '' tries, error: '' @ e\<rparr>\<rparr>, w')))"
proof (intro conjI impI)
  let ?fn = "openAttempt (config g) b problem (problem_title problem)"
  assume h: "State problem = ''OPEN''
          \<and> (\<forall>i\<in>{1..MaxRetries g}. failure_of (invocation ?fn (None, w) i) \<noteq> None)"
  then have all: "\<forall>i\<in>{1..MaxRetries g}. failure_of (invocation ?fn (None, w) i) \<noteq> None" by blast
  from assms have "MaxRetries g \<in> {1..MaxRetries g}" by simp
  with all obtain e where e: "failure_of (invocation ?fn (None, w) (MaxRetries g)) = Some e"
    by blast
  obtain tk w1 where s: "snd (invocation ?fn (None, w) (MaxRetries g)) = (tk, w1)"
    by (cases "snd (invocation ?fn (None, w) (MaxRetries g))")
  from try_Do_exhausted[OF all] assms e s
  have "try_Do (MaxRetries g) ?fn (None, w) = (Some (RetryExhausted (MaxRetries g) e), (tk, w1))"
    by simp
  with h have "SDMHandler g b (Inr problem) w
                    = (Inr \<lparr>status = 500,
                            body = \<lparr>Error = True,
                                    Message = ''Could not open ticket after '' @ show_nat (MaxRetries g)
                                                @ '' tries, error: '' @ e\<rparr>\<rparr>, w1)"
    by (simp add: SDMHandler_def retry_Error_def)
  with e show "\<exists>e w'. failure_of (invocation ?fn (None, w) (MaxRetries g)) = Some e
                \<and> SDMHandler g b (Inr problem) w
                    = (Inr \<lparr>status = 500,
                            body = \<lparr>Error = True,
                                    Message = ''Could not open ticket after '' @ show_nat (MaxRetries g)
                                                @ '' tries, error: '' @ e\<rparr>\<rparr>, w')"
    by blast
next
  let ?fn = "closeAttempt (config g) b ticket"
  assume h: "State problem = ''RESOLVED'' \<and> stored_mapping w (ProblemID problem) = Some ticket
          \<and> (\<forall>i\<in>{1..MaxRetries g}. failure_of (invocation ?fn (None, w) i) \<noteq> None)"
  then have all: "\<forall>i\<in>{1..MaxRetries g}. failure_of (invocation ?fn (None, w) i) \<noteq> None" by blast
  from h have gt: "getTicketNumberFromStorage problem w = (Inr (Some ticket), w)"
    by (intro getTicket_found) simp
  from assms have "MaxRetries g \<in> {1..MaxRetries g}" by simp
  with all obtain e where e: "failure_of (invocation ?fn (None, w) (MaxRetries g)) = Some e"
    by blast
  obtain tk w1 where s: "snd (invocation ?fn (None, w) (MaxRetries g)) = (tk, w1)"
    by (cases "snd (invocation ?fn (None, w) (MaxRetries g))")
  from try_Do_exhausted[OF all] assms e s
  have "try_Do (MaxRetries g) ?fn (None, w) = (Some (RetryExhausted (MaxRetries g) e), (tk, w1))"
    by simp
  with h gt have "SDMHandler g b (Inr problem) w
                    = (Inr \<lparr>status = 500,
                            body = \<lparr>Error = True,
                                    Message = ''Could not close ticket '' @ NewRequestNumber ticket
                                                @ '' after '' @ show_nat (MaxRetries g)
                                                @ '' tries, error: '' @ e\<rparr>\<rparr>, w1)"
    by (simp add: SDMHandler_def retry_Error_def)
  with e show "\<exists>e w'. failure_of (invocation ?fn (None, w) (MaxRetries g)) = Some e
                \<and> SDMHandler g b (Inr problem) w
                    = (Inr \<lparr>status = 500,
                            body = \<lparr>Error = True,
                                    Message = ''Could not close ticket '' @ NewRequestNumber ticket
                                                @ '' after '' @ show_nat (MaxRetries g)
                                                @ '' tries, error: '' @ e\<rparr>\<rparr>, w')"
    by blast
qed

text \<open>
  Claim C8. In a store that can be written, \<open>storeNewProblem\<close> goes through and a
  \<open>getTicketNumberFromStorage\<close> on the same ProblemID right after returns exactly the
  ticket stored, leaving the world as it is; and a snapshot written to the file is read
  back unchanged.
\<close>

theorem upsert_then_lookup:
  assumes "store_ok w"
  shows "fst (storeNewProblem problem ticket w) = Inr ()
       \<and> getTicketNumberFromStorage problem (snd (storeNewProblem problem ticket w))
           = (Inr (Some ticket), snd (storeNewProblem problem ticket w))
       \<and> loadStorage (ioutil_WriteFile (json_MarshalIndent storage) w)
           = (Inr storage, ioutil_WriteFile (json_MarshalIndent storage) w)"
proof -
  note S = storeNewProblem_ok[OF assms, of problem ticket]
  then have "stored_mapping (snd (storeNewProblem problem ticket w)) (ProblemID problem) = Some ticket"
    by simp
  from getTicket_found[OF this] S
  have a: "fst (storeNewProblem problem ticket w) = Inr ()
       \<and> getTicketNumberFromStorage problem (snd (storeNewProblem problem ticket w))
           = (Inr (Some ticket), snd (storeNewProblem problem ticket w))" by simp
  from assms have "writable w" by (simp add: store_ok_def)
  then have "loadStorage (ioutil_WriteFile (json_MarshalIndent storage) w)
           = (Inr storage, ioutil_WriteFile (json_MarshalIndent storage) w)"
    by (simp add: loadStorage_cases ioutil_WriteFile_def json_MarshalIndent_def)
  with a show ?thesis by simp
qed

text \<open>
  Claim C4, as amended. The retry bound is the constant 50 that \<open>main\<close> assigns, whatever
  the configuration holds, and the handler runs under that one bound for every request.
\<close>

theorem retry_bound_fixed_by_main:
  "MaxRetries (main_globals c) = 50
   \<and> SDMHandler (main_globals c) b request w = SDMHandler \<lparr>config = c, MaxRetries = 50\<rparr> b request w"
  by (simp add: main_globals_def)

text \<open>
  Claim C4 as stated fails: two configurations that differ in every field give the same
  bound, so the bound is not taken from the configuration.
\<close>

theorem retry_bound_not_configured:
  "MaxRetries (main_globals demo_config) = 50 \<and> MaxRetries (main_globals other_config) = 50
   \<and> ListenerPort demo_config \<noteq> ListenerPort other_config
   \<and> LogLevel demo_config \<noteq> LogLevel other_config
   \<and> SDMWSDL demo_config \<noteq> SDMWSDL other_config
   \<and> SDMUsername demo_config \<noteq> SDMUsername other_config
   \<and> SDMPassword demo_config \<noteq> SDMPassword other_config"
  by (simp add: main_globals_def demo_config_def other_config_def)

section \<open>Sessions\<close>

lemma fresh_sessions_append:
  assumes "fresh_sessions b h tok xs"
    and "ys = [] \<or> fst (hd ys) = ''login''"
    and "fresh_sessions b (h @ xs) None ys"
  shows "fresh_sessions b h tok (xs @ ys)"
  using assms
proof (induction xs arbitrary: h tok)
  case Nil
  then show ?case by (cases ys) auto
next
  case (Cons c cs)
  show ?case
  proof (cases "fst c = ''login''")
    case True
    with Cons.prems have "fresh_sessions b (h @ [c])
        (case b h c of Inr (Elements xs) \<Rightarrow> Some (xml_field ''loginReturn'' xs) | _ \<Rightarrow> None) cs"
      by simp
    from Cons.IH[OF this Cons.prems(2)] Cons.prems(3) True show ?thesis by simp
  next
    case False
    with Cons.prems have "fresh_sessions b (h @ [c]) tok cs" by simp
    from Cons.IH[OF this Cons.prems(2)] Cons.prems(1,3) False show ?thesis by simp
  qed
qed

lemma openTicket_sessions:
  assumes "openTicket cfg b description summary pcat w = (r, w')"
  shows "\<exists>rest. soap_log w' = soap_log w @
             ((''login'', [(''username'', PString (SDMUsername cfg)), (''password'', PString (SDMPassword cfg))]) # rest)
           \<and> (\<forall>c\<in>set rest. fst c \<noteq> ''login'' \<and>
                 (\<exists>xs. b (soap_log w) (''login'', [(''username'', PString (SDMUsername cfg)),
                                                    (''password'', PString (SDMPassword cfg))])
                         = Inr (Elements xs)
                       \<and> map_of (snd c) ''sid'' = Some (PString (xml_field ''loginReturn'' xs))))
           \<and> fresh_sessions b (soap_log w) tok
               ((''login'', [(''username'', PString (SDMUsername cfg)), (''password'', PString (SDMPassword cfg))]) # rest)"
proof -
  let ?lc = "(''login'', [(''username'', PString (SDMUsername cfg)), (''password'', PString (SDMPassword cfg))])"
  obtain rl w1 where l: "login b (SDMUsername cfg) (SDMPassword cfg) w = (rl, w1)"
    by (cases "login b (SDMUsername cfg) (SDMPassword cfg) w")
  note L = login_res[OF l]
  show ?thesis
  proof (cases rl)
    case (Inl e)
    with assms l have "w' = w1" by (simp add: openTicket_def)
    with L show ?thesis by (intro exI[of _ "[]"]) simp
  next
    case (Inr lr)
    with L obtain xs where xs: "b (soap_log w) ?lc = Inr (Elements xs)"
      "LoginReturn lr = xml_field ''loginReturn'' xs" by blast
    obtain rh w2 where h: "getHandle b (LoginReturn lr) (SDMUsername cfg) w1 = (rh, w2)"
      by (cases "getHandle b (LoginReturn lr) (SDMUsername cfg) w1")
    note H = getHandle_res[OF h]
    show ?thesis
    proof (cases rh)
      case (Inl e)
      with assms l h Inr have "w' = w2" by (simp add: openTicket_def)
      with L H xs show ?thesis
        by (intro exI[of _ "[(''getHandleForUserid'',
              [(''sid'', PString (LoginReturn lr)), (''userID'', PString (SDMUsername cfg))])]"]) simp
    next
      case hr: (Inr h)
      from assms l h Inr hr obtain r3 av where
        c: "createRequest b (LoginReturn lr) (GetHandleForUserIDReturn h) av [] [] [] [] [] w2 = (r3, w')"
        by (auto simp: openTicket_def Let_def split: prod.splits sum.splits)
      note C = createRequest_res[OF c]
      from L H C xs show ?thesis
        by (intro exI[of _ "[(''getHandleForUserid'',
              [(''sid'', PString (LoginReturn lr)), (''userID'', PString (SDMUsername cfg))]),
             (''createRequest'', [(''sid'', PString (LoginReturn lr)),
                    (''creatorHandle'', PString (GetHandleForUserIDReturn h)),
                    (''attrVals'', PArray av), (''propertyValues'', PArray []),
                    (''template'', PString ''''), (''attributes'', PArray []),
                    (''newRequestHandle'', PString ''''),
                    (''newRequestNumber'', PString '''')])]"]) simp
    qed
  qed
qed

lemma closeTicket_sessions:
  assumes "closeTicket cfg b objectHandle w = (r, w')"
  shows "\<exists>rest. soap_log w' = soap_log w @
             ((''login'', [(''username'', PString (SDMUsername cfg)), (''password'', PString (SDMPassword cfg))]) # rest)
           \<and> (\<forall>c\<in>set rest. fst c \<noteq> ''login'' \<and>
                 (\<exists>xs. b (soap_log w) (''login'', [(''username'', PString (SDMUsername cfg)),
                                                    (''password'', PString (SDMPassword cfg))])
                         = Inr (Elements xs)
                       \<and> map_of (snd c) ''sid'' = Some (PString (xml_field ''loginReturn'' xs))))
           \<and> fresh_sessions b (soap_log w) tok
               ((''login'', [(''username'', PString (SDMUsername cfg)), (''password'', PString (SDMPassword cfg))]) # rest)"
proof -
  let ?lc = "(''login'', [(''username'', PString (SDMUsername cfg)), (''password'', PString (SDMPassword cfg))])"
  obtain rl w1 where l: "login b (SDMUsername cfg) (SDMPassword cfg) w = (rl, w1)"
    by (cases "login b (SDMUsername cfg) (SDMPassword cfg) w")
  note L = login_res[OF l]
  show ?thesis
  proof (cases rl)
    case (Inl e)
    with assms l have "w' = w1" by (simp add: closeTicket_def)
    with L show ?thesis by (intro exI[of _ "[]"]) simp
  next
    case (Inr lr)
    with L obtain xs where xs: "b (soap_log w) ?lc = Inr (Elements xs)"
      "LoginReturn lr = xml_field ''loginReturn'' xs" by blast
    from assms l Inr obtain r2 av at where
      c: "updateObject b (LoginReturn lr) objectHandle av at w1 = (r2, w')"
      by (auto simp: closeTicket_def Let_def split: prod.splits sum.splits)
    note C = updateObject_res[OF c]
    from L C xs show ?thesis
      by (intro exI[of _ "[(''updateObject'',
            [(''sid'', PString (LoginReturn lr)), (''objectHandle'', PString objectHandle),
             (''attrVals'', PArray av), (''attributes'', PArray at)])]"]) simp
  qed
qed

lemma extends_fresh_refl: "extends_fresh b w w"
  by (simp add: extends_fresh_def)

lemma extends_fresh_same_log: "extends_fresh b w w1 \<Longrightarrow> soap_log w2 = soap_log w1 \<Longrightarrow> extends_fresh b w w2"
  by (simp add: extends_fresh_def)

lemma extends_fresh_from_same_log: "soap_log w1 = soap_log w \<Longrightarrow> extends_fresh b w1 w2 \<Longrightarrow> extends_fresh b w w2"
  by (simp add: extends_fresh_def)

lemma extends_fresh_step:
  assumes "extends_fresh b w w1"
    and "soap_log w2 = soap_log w1 @ (c # rest)" and "fst c = ''login''"
    and "fresh_sessions b (soap_log w1) None (c # rest)"
  shows "extends_fresh b w w2"
proof -
  from assms(1) obtain calls where c: "soap_log w1 = soap_log w @ calls"
    "fresh_sessions b (soap_log w) None calls" by (auto simp: extends_fresh_def)
  have "fresh_sessions b (soap_log w) None (calls @ (c # rest))"
    using c assms(3,4) by (intro fresh_sessions_append) simp_all
  with c assms(2) show ?thesis by (auto simp: extends_fresh_def)
qed

lemma openAttempt_extends:
  assumes "extends_fresh b w (snd s)" and "openAttempt cfg b problem title a s = (r, s')"
  shows "extends_fresh b w (snd s')"
proof -
  obtain r1 w1 where o: "openTicket cfg b (ProblemDetailsText problem) title (Pcat problem) (snd s) = (r1, w1)"
    by (cases "openTicket cfg b (ProblemDetailsText problem) title (Pcat problem) (snd s)")
  with assms(2) have "snd s' = w1" by (auto simp: openAttempt_def split: sum.splits)
  with openTicket_sessions[OF o, of None] assms(1) show ?thesis
    by (auto intro: extends_fresh_step)
qed

lemma closeAttempt_extends:
  assumes "extends_fresh b w (snd s)" and "closeAttempt cfg b ticket a s = (r, s')"
  shows "extends_fresh b w (snd s')"
proof -
  obtain r1 w1 where o: "closeTicket cfg b (NewRequestHandle ticket) (snd s) = (r1, w1)"
    by (cases "closeTicket cfg b (NewRequestHandle ticket) (snd s)")
  with assms(2) have "snd s' = w1" by (auto simp: closeAttempt_def split: sum.splits)
  with closeTicket_sessions[OF o, of None] assms(1) show ?thesis
    by (auto intro: extends_fresh_step)
qed

lemma try_Do_open_extends:
  assumes "try_Do n (openAttempt cfg b problem title) (tk, w) = (r, (tk', w'))"
  shows "extends_fresh b w w'"
proof -
  have "extends_fresh b w (snd (tk', w'))"
  proof (rule attempt_from_invariant[where P = "\<lambda>s. extends_fresh b w (snd s)"])
    show "extends_fresh b w (snd (tk, w))" by (simp add: extends_fresh_refl)
    show "attempt_from n 0 [] (openAttempt cfg b problem title) (tk, w) = (r, (tk', w'))"
      using assms by (simp add: try_Do_def)
    fix a s r s'
    assume "extends_fresh b w (snd s)" and "openAttempt cfg b problem title a s = (r, s')"
    then show "extends_fresh b w (snd s')" by (rule openAttempt_extends)
  qed
  then show ?thesis by simp
qed

lemma try_Do_close_extends:
  assumes "try_Do n (closeAttempt cfg b ticket) (tk, w) = (r, (tk', w'))"
  shows "extends_fresh b w w'"
proof -
  have "extends_fresh b w (snd (tk', w'))"
  proof (rule attempt_from_invariant[where P = "\<lambda>s. extends_fresh b w (snd s)"])
    show "extends_fresh b w (snd (tk, w))" by (simp add: extends_fresh_refl)
    show "attempt_from n 0 [] (closeAttempt cfg b ticket) (tk, w) = (r, (tk', w'))"
      using assms by (simp add: try_Do_def)
    fix a s r s'
    assume "extends_fresh b w (snd s)" and "closeAttempt cfg b ticket a s = (r, s')"
    then show "extends_fresh b w (snd s')" by (rule closeAttempt_extends)
  qed
  then show ?thesis by simp
qed

lemma SDMHandler_extends:
  assumes "SDMHandler g b request w = (r, w')"
  shows "extends_fresh b w w'"
proof (cases request)
  case (Inl e)
  with assms show ?thesis by (simp add: SDMHandler_def extends_fresh_refl)
next
  case (Inr problem)
  consider (op) "State problem = ''OPEN''"
    | (res) "State problem \<noteq> ''OPEN''" "State problem = ''RESOLVED''"
    | (other) "State problem \<noteq> ''OPEN''" "State problem \<noteq> ''RESOLVED''"
    by blast
  then show ?thesis
  proof cases
    case op
    let ?fn = "openAttempt (config g) b problem (problem_title problem)"
    show ?thesis
    proof (cases rule: try_Do_split[of "MaxRetries g" ?fn "(None, w)"])
      case (1 e tk w1)
      from assms Inr op 1 have "w' = w1" by (simp add: SDMHandler_def)
      with try_Do_open_extends[OF 1] show ?thesis by simp
    next
      case (2 tk w1)
      note E = try_Do_open_extends[OF 2]
      show ?thesis
      proof (cases tk)
        case None
        with assms Inr op 2 have "w' = w1" by (simp add: SDMHandler_def)
        with E show ?thesis by simp
      next
        case (Some t)
        obtain sr w2 where s: "storeNewProblem problem t w1 = (sr, w2)"
          by (cases "storeNewProblem problem t w1")
        from assms Inr op 2 Some s have "w' = w2"
          by (cases sr) (simp_all add: SDMHandler_def)
        with storeNewProblem_frame[OF s] E show ?thesis
          by (auto intro: extends_fresh_same_log)
      qed
    qed
  next
    case res
    obtain gr w1 where gt: "getTicketNumberFromStorage problem w = (gr, w1)"
      by (cases "getTicketNumberFromStorage problem w")
    from getTicket_frame[OF gt] have lg: "soap_log w1 = soap_log w" by simp
    show ?thesis
    proof (cases gr)
      case (Inl a)
      with assms Inr res gt have "w' = w1" by (simp add: SDMHandler_def)
      with lg show ?thesis by (simp add: extends_fresh_def)
    next
      case go: (Inr found)
      show ?thesis
      proof (cases found)
        case None
        with assms Inr res gt go have "w' = w1" by (simp add: SDMHandler_def)
        with lg show ?thesis by (simp add: extends_fresh_def)
      next
        case (Some ticket)
        let ?fn = "closeAttempt (config g) b ticket"
        show ?thesis
        proof (cases rule: try_Do_split[of "MaxRetries g" ?fn "(None, w1)"])
          case (1 e tk w2)
          from assms Inr res gt go Some 1 have "w' = w2" by (simp add: SDMHandler_def)
          with try_Do_close_extends[OF 1] lg show ?thesis
            by (auto intro: extends_fresh_from_same_log)
        next
          case (2 tk w2)
          from assms Inr res gt go Some 2 have "w' = w2" by (simp add: SDMHandler_def)
          with try_Do_close_extends[OF 2] lg show ?thesis
            by (auto intro: extends_fresh_from_same_log)
        qed
      qed
    qed
  next
    case other
    with assms Inr show ?thesis by (simp add: SDMHandler_def extends_fresh_refl)
  qed
qed

text \<open>
  Claim C10. Every invocation of the create flow and of the close flow starts with its
  own \<open>login\<close>, and each further call of that invocation carries as \<open>sid\<close> the token
  the backend returned to that login. Over a whole request, whatever was logged before:
  the calls the handler adds start from no session, and each call other than a login
  carries the token of the latest login before it.
\<close>

theorem every_attempt_logs_in_afresh:
  "(\<exists>rest. soap_log (snd (openTicket cfg b description summary pcat w)) = soap_log w @
             ((''login'', [(''username'', PString (SDMUsername cfg)), (''password'', PString (SDMPassword cfg))]) # rest)
           \<and> (\<forall>c\<in>set rest. fst c \<noteq> ''login'' \<and>
                 (\<exists>xs. b (soap_log w) (''login'', [(''username'', PString (SDMUsername cfg)),
                                                    (''password'', PString (SDMPassword cfg))])
                         = Inr (Elements xs)
                       \<and> map_of (snd c) ''sid'' = Some (PString (xml_field ''loginReturn'' xs)))))
   \<and> (\<exists>rest. soap_log (snd (closeTicket cfg b objectHandle w)) = soap_log w @
             ((''login'', [(''username'', PString (SDMUsername cfg)), (''password'', PString (SDMPassword cfg))]) # rest)
           \<and> (\<forall>c\<in>set rest. fst c \<noteq> ''login'' \<and>
                 (\<exists>xs. b (soap_log w) (''login'', [(''username'', PString (SDMUsername cfg)),
                                                    (''password'', PString (SDMPassword cfg))])
                         = Inr (Elements xs)
                       \<and> map_of (snd c) ''sid'' = Some (PString (xml_field ''loginReturn'' xs)))))
   \<and> (\<exists>calls. soap_log (snd (SDMHandler g b request w)) = soap_log w @ calls
           \<and> fresh_sessions b (soap_log w) None calls)"
proof (intro conjI)
  show "\<exists>rest. soap_log (snd (openTicket cfg b description summary pcat w)) = soap_log w @
             ((''login'', [(''username'', PString (SDMUsername cfg)), (''password'', PString (SDMPassword cfg))]) # rest)
           \<and> (\<forall>c\<in>set rest. fst c \<noteq> ''login'' \<and>
                 (\<exists>xs. b (soap_log w) (''login'', [(''username'', PString (SDMUsername cfg)),
                                                    (''password'', PString (SDMPassword cfg))])
                         = Inr (Elements xs)
                       \<and> map_of (snd c) ''sid'' = Some (PString (xml_field ''loginReturn'' xs))))"
    using openTicket_sessions[of cfg b description summary pcat w
            "fst (openTicket cfg b description summary pcat w)"
            "snd (openTicket cfg b description summary pcat w)" None]
    by auto
  show "\<exists>rest. soap_log (snd (closeTicket cfg b objectHandle w)) = soap_log w @
             ((''login'', [(''username'', PString (SDMUsername cfg)), (''password'', PString (SDMPassword cfg))]) # rest)
           \<and> (\<forall>c\<in>set rest. fst c \<noteq> ''login'' \<and>
                 (\<exists>xs. b (soap_log w) (''login'', [(''username'', PString (SDMUsername cfg)),
                                                    (''password'', PString (SDMPassword cfg))])
                         = Inr (Elements xs)
                       \<and> map_of (snd c) ''sid'' = Some (PString (xml_field ''loginReturn'' xs))))"
    using closeTicket_sessions[of cfg b objectHandle w
            "fst (closeTicket cfg b objectHandle w)"
            "snd (closeTicket cfg b objectHandle w)" None]
    by auto
  show "\<exists>calls. soap_log (snd (SDMHandler g b request w)) = soap_log w @ calls
           \<and> fresh_sessions b (soap_log w) None calls"
    using SDMHandler_extends[of g b request w "fst (SDMHandler g b request w)"
            "snd (SDMHandler g b request w)"]
    by (simp add: extends_fresh_def)
qed

section \<open>The scenarios of the spec\<close>

lemma down_open_failure:
  "failure_of (invocation (openAttempt cfg down_backend problem title) s i)
     = (if i = 0 then None else Some ''connection refused'')"
  by (cases i) (simp_all add: failure_of_def remote_defs down_backend_def)

lemma down_close_failure:
  "failure_of (invocation (closeAttempt cfg down_backend ticket) s i)
     = (if i = 0 then None else Some ''connection refused'')"
  by (cases i) (simp_all add: failure_of_def remote_defs down_backend_def)

text \<open>
  Claim C3 on the spec's scenario 4: the backend refuses every call and the bound is 3.
  The OPEN event P1 and the RESOLVED event P1 (its ticket stored) are both answered with
  the count 3 and the backend's error.
\<close>

theorem exhausted_retries_report_last_error_witness:
  "0 < MaxRetries demo_globals \<and> MaxRetries demo_globals = 3
   \<and> State P1_open = ''OPEN''
   \<and> failure_of (invocation (openAttempt (config demo_globals) down_backend P1_open (problem_title P1_open))
                       (None, fresh_world) 1) \<noteq> None
   \<and> failure_of (invocation (openAttempt (config demo_globals) down_backend P1_open (problem_title P1_open))
                       (None, fresh_world) 2) \<noteq> None
   \<and> failure_of (invocation (openAttempt (config demo_globals) down_backend P1_open (problem_title P1_open))
                       (None, fresh_world) 3) \<noteq> None
   \<and> (\<exists>w'. SDMHandler demo_globals down_backend (Inr P1_open) fresh_world
              = (Inr \<lparr>status = 500,
                      body = \<lparr>Error = True,
                              Message = ''Could not open ticket after 3 tries, error: connection refused''\<rparr>\<rparr>, w'))
   \<and> State P1_resolved = ''RESOLVED''
   \<and> stored_mapping stored_world (ProblemID P1_resolved) = Some \<lparr>NewRequestHandle = ''H1'', NewRequestNumber = ''INC001''\<rparr>
   \<and> failure_of (invocation (closeAttempt (config demo_globals) down_backend
                                   \<lparr>NewRequestHandle = ''H1'', NewRequestNumber = ''INC001''\<rparr>)
                       (None, stored_world) 1) \<noteq> None
   \<and> failure_of (invocation (closeAttempt (config demo_globals) down_backend
                                   \<lparr>NewRequestHandle = ''H1'', NewRequestNumber = ''INC001''\<rparr>)
                       (None, stored_world) 2) \<noteq> None
   \<and> failure_of (invocation (closeAttempt (config demo_globals) down_backend
                                   \<lparr>NewRequestHandle = ''H1'', NewRequestNumber = ''INC001''\<rparr>)
                       (None, stored_world) 3) \<noteq> None
   \<and> (\<exists>w'. SDMHandler demo_globals down_backend (Inr P1_resolved) stored_world
              = (Inr \<lparr>status = 500,
                      body = \<lparr>Error = True,
                              Message = ''Could not close ticket INC001 after 3 tries, error: connection refused''\<rparr>\<rparr>, w'))"
proof -
  have n: "MaxRetries demo_globals = 3" by (simp add: demo_globals_def)
  have sn: "show_nat 3 = ''3''" by (simp add: show_nat.simps digit_char_def)
  have h0: "0 < MaxRetries demo_globals" by (simp add: n)
  have h1: "State P1_open = ''OPEN''
     \<and> (\<forall>i\<in>{1..MaxRetries demo_globals}.
         failure_of (invocation (openAttempt (config demo_globals) down_backend P1_open (problem_title P1_open))
                       (None, fresh_world) i) \<noteq> None)"
    by (simp add: down_open_failure P1_open_def del: invocation.simps)
  have h2: "State P1_resolved = ''RESOLVED''
     \<and> stored_mapping stored_world (ProblemID P1_resolved) = Some \<lparr>NewRequestHandle = ''H1'', NewRequestNumber = ''INC001''\<rparr>
     \<and> (\<forall>i\<in>{1..MaxRetries demo_globals}.
         failure_of (invocation (closeAttempt (config demo_globals) down_backend
                                   \<lparr>NewRequestHandle = ''H1'', NewRequestNumber = ''INC001''\<rparr>)
                       (None, stored_world) i) \<noteq> None)"
    by (simp add: down_close_failure P1_resolved_def stored_world_def stored_mapping_def
             del: invocation.simps)
  have e: "failure_of (invocation (openAttempt (config demo_globals) down_backend P1_open (problem_title P1_open))
                       (None, fresh_world) 1) \<noteq> None
     \<and> failure_of (invocation (openAttempt (config demo_globals) down_backend P1_open (problem_title P1_open))
                       (None, fresh_world) 2) \<noteq> None
     \<and> failure_of (invocation (openAttempt (config demo_globals) down_backend P1_open (problem_title P1_open))
                       (None, fresh_world) 3) \<noteq> None
     \<and> failure_of (invocation (closeAttempt (config demo_globals) down_backend
                                   \<lparr>NewRequestHandle = ''H1'', NewRequestNumber = ''INC001''\<rparr>)
                       (None, stored_world) 1) \<noteq> None
     \<and> failure_of (invocation (closeAttempt (config demo_globals) down_backend
                                   \<lparr>NewRequestHandle = ''H1'', NewRequestNumber = ''INC001''\<rparr>)
                       (None, stored_world) 2) \<noteq> None
     \<and> failure_of (invocation (closeAttempt (config demo_globals) down_backend
                                   \<lparr>NewRequestHandle = ''H1'', NewRequestNumber = ''INC001''\<rparr>)
                       (None, stored_world) 3) \<noteq> None"
    by (simp add: down_open_failure down_close_failure del: invocation.simps)
  note T = exhausted_retries_report_last_error[OF h0, where problem = P1_open and b = down_backend
             and w = fresh_world]
  from T h1 have c1: "\<exists>w'. SDMHandler demo_globals down_backend (Inr P1_open) fresh_world
              = (Inr \<lparr>status = 500,
                      body = \<lparr>Error = True,
                              Message = ''Could not open ticket after 3 tries, error: connection refused''\<rparr>\<rparr>, w')"
    by (simp add: down_open_failure n sn del: invocation.simps)
  note U = exhausted_retries_report_last_error[OF h0, where problem = P1_resolved and b = down_backend
             and w = stored_world
             and ticket = "\<lparr>NewRequestHandle = ''H1'', NewRequestNumber = ''INC001''\<rparr>"]
  from U h2 have c2: "\<exists>w'. SDMHandler demo_globals down_backend (Inr P1_resolved) stored_world
              = (Inr \<lparr>status = 500,
                      body = \<lparr>Error = True,
                              Message = ''Could not close ticket INC001 after 3 tries, error: connection refused''\<rparr>\<rparr>, w')"
    by (simp add: down_close_failure n sn del: invocation.simps)
  from h0 n h1 h2 e c1 c2 show ?thesis by simp
qed


lemma demo_close_attempt:
  "closeAttempt demo_config demo_backend t a (tk, w)
     = ((False, None),
        (Some \<lparr>UpdateObjectReturn = ''OK''\<rparr>,
         snd (snd (closeAttempt demo_config demo_backend t a (tk, w)))))"
  by (simp add: remote_defs demo_backend_def)

text \<open>
  Claim C6 on the spec's scenario 2: P1 resolves after scenario 1, and the backend
  answers the close.
\<close>

theorem resolved_event_closes_and_keeps_entry_witness:
  "State P1_resolved = ''RESOLVED''
   \<and> stored_mapping stored_world (ProblemID P1_resolved)
        = Some \<lparr>NewRequestHandle = ''H1'', NewRequestNumber = ''INC001''\<rparr>
   \<and> fst (try_Do (MaxRetries demo_globals)
            (closeAttempt (config demo_globals) demo_backend
               \<lparr>NewRequestHandle = ''H1'', NewRequestNumber = ''INC001''\<rparr>) (None, stored_world)) = None
   \<and> (\<exists>w'. SDMHandler demo_globals demo_backend (Inr P1_resolved) stored_world
             = (Inr \<lparr>status = 200, body = \<lparr>Error = False, Message = ''Closed ticket: INC001''\<rparr>\<rparr>, w')
          \<and> stored_mapping w' ''P1'' = Some \<lparr>NewRequestHandle = ''H1'', NewRequestNumber = ''INC001''\<rparr>)"
proof -
  have h1: "State P1_resolved = ''RESOLVED''" by (simp add: P1_resolved_def)
  have h2: "stored_mapping stored_world (ProblemID P1_resolved)
        = Some \<lparr>NewRequestHandle = ''H1'', NewRequestNumber = ''INC001''\<rparr>"
    by (simp add: P1_resolved_def stored_world_def stored_mapping_def)
  have h3: "fst (try_Do (MaxRetries demo_globals)
            (closeAttempt (config demo_globals) demo_backend
               \<lparr>NewRequestHandle = ''H1'', NewRequestNumber = ''INC001''\<rparr>) (None, stored_world)) = None"
    unfolding try_Do_def demo_globals_def globals.simps attempt_from_numeral
    by (subst demo_close_attempt) simp
  from resolved_event_closes_and_keeps_entry[OF h1 h2 h3]
  have "\<exists>w'. SDMHandler demo_globals demo_backend (Inr P1_resolved) stored_world
             = (Inr \<lparr>status = 200, body = \<lparr>Error = False, Message = ''Closed ticket: INC001''\<rparr>\<rparr>, w')
          \<and> stored_mapping w' ''P1'' = Some \<lparr>NewRequestHandle = ''H1'', NewRequestNumber = ''INC001''\<rparr>"
    by (auto simp: P1_resolved_def)
  with h1 h2 h3 show ?thesis by blast
qed

text \<open>
  Claim C5 on the spec's scenario 3: P2 resolves and the store maps only P1.
\<close>

theorem no_action_events_are_silent_witness:
  "State P2_resolved \<noteq> ''OPEN'' \<and> State P2_resolved = ''RESOLVED''
   \<and> stored_mapping stored_world (ProblemID P2_resolved) = None
   \<and> writable stored_world
   \<and> (\<exists>w'. SDMHandler demo_globals demo_backend (Inr P2_resolved) stored_world
             = (Inr \<lparr>status = 200, body = \<lparr>Error = False, Message = ''''\<rparr>\<rparr>, w')
          \<and> soap_log w' = soap_log stored_world)"
proof -
  have h1: "State P2_resolved \<noteq> ''OPEN''" by (simp add: P2_resolved_def)
  have e: "State P2_resolved = ''RESOLVED''
         \<and> stored_mapping stored_world (ProblemID P2_resolved) = None
         \<and> writable stored_world"
    by (simp add: P2_resolved_def stored_world_def stored_mapping_def)
  then have h2: "State P2_resolved = ''RESOLVED'' \<longrightarrow>
         stored_mapping stored_world (ProblemID P2_resolved) = None
         \<and> (storage_json stored_world \<noteq> None \<or> writable stored_world)"
    by simp
  from no_action_events_are_silent[OF h1 h2, of demo_globals demo_backend] h1 e
  show ?thesis by blast
qed

text \<open>
  Claim C8 on a store without a file: storing P1's ticket and looking P1 up returns the
  ticket, and a snapshot holding P1 is read back as written.
\<close>

theorem upsert_then_lookup_witness:
  "store_ok fresh_world
   \<and> fst (storeNewProblem P1_open \<lparr>NewRequestHandle = ''H1'', NewRequestNumber = ''INC001''\<rparr> fresh_world)
       = Inr ()
   \<and> fst (getTicketNumberFromStorage P1_open
            (snd (storeNewProblem P1_open \<lparr>NewRequestHandle = ''H1'', NewRequestNumber = ''INC001''\<rparr>
                    fresh_world)))
       = Inr (Some \<lparr>NewRequestHandle = ''H1'', NewRequestNumber = ''INC001''\<rparr>)
   \<and> fst (loadStorage (ioutil_WriteFile
              (json_MarshalIndent \<lparr>Problems = Some [''P1'' \<mapsto> \<lparr>NewRequestHandle = ''H1'', NewRequestNumber = ''INC001''\<rparr>]\<rparr>)
              fresh_world))
       = Inr \<lparr>Problems = Some [''P1'' \<mapsto> \<lparr>NewRequestHandle = ''H1'', NewRequestNumber = ''INC001''\<rparr>]\<rparr>"
proof -
  have h: "store_ok fresh_world" by (simp add: store_ok_def fresh_world_def)
  from upsert_then_lookup[OF h, of P1_open "\<lparr>NewRequestHandle = ''H1'', NewRequestNumber = ''INC001''\<rparr>"
         "\<lparr>Problems = Some [''P1'' \<mapsto> \<lparr>NewRequestHandle = ''H1'', NewRequestNumber = ''INC001''\<rparr>]\<rparr>"] h
  show ?thesis by simp
qed

text \<open>
  Claim C9 on the RESOLVED event P1 with its ticket stored: the entry of P1 is as before.
\<close>

theorem mapping_changes_only_on_open_success_witness:
  "SDMHandler demo_globals demo_backend (Inr P1_resolved) stored_world
     = (fst (SDMHandler demo_globals demo_backend (Inr P1_resolved) stored_world),
        snd (SDMHandler demo_globals demo_backend (Inr P1_resolved) stored_world))
   \<and> \<not> (\<exists>problem resp. (Inr P1_resolved :: string + Problem) = Inr problem \<and> State problem = ''OPEN''
            \<and> fst (SDMHandler demo_globals demo_backend (Inr P1_resolved) stored_world) = Inr resp
            \<and> \<not> Error (body resp))
   \<and> stored_mapping (snd (SDMHandler demo_globals demo_backend (Inr P1_resolved) stored_world)) ''P1''
       = Some \<lparr>NewRequestHandle = ''H1'', NewRequestNumber = ''INC001''\<rparr>"
proof -
  have h1: "SDMHandler demo_globals demo_backend (Inr P1_resolved) stored_world
     = (fst (SDMHandler demo_globals demo_backend (Inr P1_resolved) stored_world),
        snd (SDMHandler demo_globals demo_backend (Inr P1_resolved) stored_world))" by simp
  have h2: "\<not> (\<exists>problem resp. (Inr P1_resolved :: string + Problem) = Inr problem \<and> State problem = ''OPEN''
            \<and> fst (SDMHandler demo_globals demo_backend (Inr P1_resolved) stored_world) = Inr resp
            \<and> \<not> Error (body resp))"
    by (simp add: P1_resolved_def)
  have "stored_mapping stored_world ''P1'' = Some \<lparr>NewRequestHandle = ''H1'', NewRequestNumber = ''INC001''\<rparr>"
    by (simp add: stored_world_def stored_mapping_def)
  with mapping_changes_only_on_open_success[OF h1 h2] h1 h2 show ?thesis by simp
qed


text \<open>
  Claim C10 on a backend that answers every call and hands out the token SID1: the create
  flow logs in and its two further calls carry SID1; the calls of the OPEN event P1 are in
  order.
\<close>

theorem every_attempt_logs_in_afresh_witness:
  "(\<exists>rest. soap_log (snd (openTicket demo_config demo_backend ''disk at 95%'' ''Disk full'' ''400373'' fresh_world))
            = soap_log fresh_world @
              ((''login'', [(''username'', PString (SDMUsername demo_config)),
                            (''password'', PString (SDMPassword demo_config))]) # rest)
          \<and> length rest = 2
          \<and> (\<forall>c\<in>set rest. fst c \<noteq> ''login'' \<and> map_of (snd c) ''sid'' = Some (PString ''SID1'')))
   \<and> (\<exists>calls. soap_log (snd (SDMHandler demo_globals demo_backend (Inr P1_open) fresh_world))
            = soap_log fresh_world @ calls
          \<and> fresh_sessions demo_backend (soap_log fresh_world) None calls)"
proof -
  note T = every_attempt_logs_in_afresh[of demo_config demo_backend "''disk at 95%''" "''Disk full''"
             "''400373''" fresh_world "''H1''" demo_globals "Inr P1_open"]
  from T obtain rest where
    r: "soap_log (snd (openTicket demo_config demo_backend ''disk at 95%'' ''Disk full'' ''400373'' fresh_world))
            = soap_log fresh_world @
              ((''login'', [(''username'', PString (SDMUsername demo_config)),
                            (''password'', PString (SDMPassword demo_config))]) # rest)"
    and a: "\<forall>c\<in>set rest. fst c \<noteq> ''login'' \<and>
                 (\<exists>xs. demo_backend (soap_log fresh_world)
                          (''login'', [(''username'', PString (SDMUsername demo_config)),
                                       (''password'', PString (SDMPassword demo_config))])
                         = Inr (Elements xs)
                       \<and> map_of (snd c) ''sid'' = Some (PString (xml_field ''loginReturn'' xs)))"
    by blast
  have "length (soap_log (snd (openTicket demo_config demo_backend ''disk at 95%'' ''Disk full'' ''400373'' fresh_world))) = 3"
    by (simp add: remote_defs demo_backend_def fresh_world_def)
  with r have l: "length rest = 2" by (simp add: fresh_world_def)
  from a have "\<forall>c\<in>set rest. fst c \<noteq> ''login'' \<and> map_of (snd c) ''sid'' = Some (PString ''SID1'')"
    by (auto simp: demo_backend_def xml_field_def)
  with r l T show ?thesis by blast
qed

text \<open>
  Outside \<open>store_ok\<close>: a file that decodes to a document without a problems object
  leaves the map nil, and the upsert panics before anything is written.
\<close>

lemma storeNewProblem_nil_map_panics:
  "storage_json w = Some (Document \<lparr>Problems = None\<rparr>) \<Longrightarrow>
     storeNewProblem problem ticket w = (Inl (Panic ''assignment to entry in nil map''), w)"
  by (simp add: storeNewProblem_def loadStorage_cases)

text \<open>The handler starts in \<open>store_ok\<close> when there is no file yet, and stays in it.\<close>

lemma store_ok_initially:
  "store_ok \<lparr>storage_json = None, writable = True, soap_log = []\<rparr>"
  by (simp add: store_ok_def)

lemma SDMHandler_keeps_store_ok:
  "store_ok w \<Longrightarrow> SDMHandler g b request w = (r, w') \<Longrightarrow> store_ok w'"
  using SDMHandler_store_frame by blast

end
